theory Spec2Isabelle
  imports Main
begin

section \<open>fit::optional: the data model\<close>

text \<open>
  The header \<^verbatim>\<open>lib/fit/optional.h\<close> declares
  \<^verbatim>\<open>bool has_value_; union { T value_; };\<close>.
  The union member is raw storage: a \<open>T\<close> lives in it only between a construction
  (member initialiser or placement \<^verbatim>\<open>new\<close>) and the explicit destructor call
  \<^verbatim>\<open>value_.~T()\<close>. The flag and the storage are separate fields here as they are
  in the class, so that "the flag tells whether a \<open>T\<close> is alive" is a property to be
  proved and not a consequence of the types. The fields \<open>has_value_m\<close> and
  \<open>value_m\<close> are the members \<^verbatim>\<open>has_value_\<close> and \<^verbatim>\<open>value_\<close>.

  A \<open>T\<close> is a value of the type parameter \<open>'a\<close>. Its copy and move constructors and
  its copy and move assignments give the destination the value of the source, as
  those of the test's \<^verbatim>\<open>slot\<close> do; a moved-from \<open>T\<close> stays alive until it is
  destroyed. The operators \<^verbatim>\<open>==\<close> and \<^verbatim>\<open>!=\<close> of the contained types are
  parameters of the comparison operators.
\<close>

type_synonym addr = nat

datatype 'a storage = Raw | Live 'a

record 'a optional =
  has_value_m :: bool
  value_m :: "'a storage"

text \<open>
  The failures of the model: \<open>Assertion_failed\<close> is \<^verbatim>\<open>assert(has_value_)\<close>
  stopping the process; \<open>Dead_access\<close> is undefined behaviour of C++ written as a
  value: a \<open>T\<close> read, assigned to or destroyed while the storage holds no live \<open>T\<close>;
  \<open>No_object\<close> is a call on an address where no optional is alive.
\<close>

datatype error = Assertion_failed | Dead_access | No_object

text \<open>
  Member functions that change an optional take \<^verbatim>\<open>this\<close> and the other operand
  as addresses into a store, since assignment and swap compare addresses
  (\<^verbatim>\<open>&other == this\<close>). \<open>objects\<close> holds the optionals whose lifetime has begun and
  not ended (\<open>None\<close> after \<^verbatim>\<open>~optional\<close>); \<open>ctor_calls\<close> and \<open>dtor_calls\<close> count
  the constructions and destructions of \<open>T\<close> in the storage of optionals, the
  pairing that \<^verbatim>\<open>slot::balance\<close> tracks in the tests.
\<close>

record 'a store =
  objects :: "'a optional option list"
  ctor_calls :: nat
  dtor_calls :: nat

definition then_do :: "error + 'x \<Rightarrow> ('x \<Rightarrow> error + 'y) \<Rightarrow> error + 'y" where
  "then_do m f = (case m of Inl e \<Rightarrow> Inl e | Inr x \<Rightarrow> f x)"

definition load :: "addr \<Rightarrow> 'a store \<Rightarrow> error + 'a optional" where
  "load p s =
     (if p < length (objects s)
      then (case objects s ! p of None \<Rightarrow> Inl No_object | Some ob \<Rightarrow> Inr ob)
      else Inl No_object)"

definition put :: "addr \<Rightarrow> 'a optional \<Rightarrow> 'a store \<Rightarrow> 'a store" where
  "put p ob s = s\<lparr>objects := (objects s)[p := Some ob]\<rparr>"

definition alloc :: "'a optional \<Rightarrow> 'a store \<Rightarrow> addr \<times> 'a store" where
  "alloc ob s = (length (objects s), s\<lparr>objects := objects s @ [Some ob]\<rparr>)"

definition release :: "addr \<Rightarrow> 'a store \<Rightarrow> 'a store" where
  "release p s = s\<lparr>objects := (objects s)[p := None]\<rparr>"

subsection \<open>Operations of the contained type on the storage of an optional\<close>

text \<open>Reading \<^verbatim>\<open>value_\<close> as a \<open>T\<close> (the argument of a constructor, assignment or \<^verbatim>\<open>==\<close>).\<close>

definition T_get :: "'a storage \<Rightarrow> error + 'a" where
  "T_get c = (case c of Raw \<Rightarrow> Inl Dead_access | Live v \<Rightarrow> Inr v)"

definition T_read :: "addr \<Rightarrow> 'a store \<Rightarrow> error + 'a" where
  "T_read p s = then_do (load p s) (\<lambda>ob. T_get (value_m ob))"

text \<open>
  \<^verbatim>\<open>new (&value_) T(v)\<close>, and the member initialiser \<^verbatim>\<open>value_(v)\<close>. Constructing
  over a live \<open>T\<close> is no failure in C++: the old object is lost without its destructor
  having run, which the counters then show (a construction more than destructions
  and live values account for).
\<close>

definition T_construct :: "addr \<Rightarrow> 'a \<Rightarrow> 'a store \<Rightarrow> error + 'a store" where
  "T_construct p v s =
     then_do (load p s) (\<lambda>ob.
       Inr (put p (ob\<lparr>value_m := Live v\<rparr>) (s\<lparr>ctor_calls := ctor_calls s + 1\<rparr>)))"

text \<open>\<^verbatim>\<open>value_ = v\<close>: assignment to the \<open>T\<close> that lives in the storage.\<close>

definition T_assign :: "addr \<Rightarrow> 'a \<Rightarrow> 'a store \<Rightarrow> error + 'a store" where
  "T_assign p v s =
     then_do (load p s) (\<lambda>ob.
       case value_m ob of
         Raw \<Rightarrow> Inl Dead_access
       | Live old \<Rightarrow> Inr (put p (ob\<lparr>value_m := Live v\<rparr>) s))"

text \<open>\<^verbatim>\<open>value_.~T()\<close>.\<close>

definition T_destroy :: "addr \<Rightarrow> 'a store \<Rightarrow> error + 'a store" where
  "T_destroy p s =
     then_do (load p s) (\<lambda>ob.
       case value_m ob of
         Raw \<Rightarrow> Inl Dead_access
       | Live old \<Rightarrow>
           Inr (put p (ob\<lparr>value_m := Raw\<rparr>) (s\<lparr>dtor_calls := dtor_calls s + 1\<rparr>)))"

text \<open>
  \<^verbatim>\<open>swap(value_, other.value_)\<close> with \<^verbatim>\<open>using std::swap\<close>: both objects are read
  and each is assigned the other's value; the temporary that \<^verbatim>\<open>std::swap\<close> makes is
  constructed and destroyed inside the call.
\<close>

definition T_swap :: "addr \<Rightarrow> addr \<Rightarrow> 'a store \<Rightarrow> error + 'a store" where
  "T_swap p q s =
     then_do (T_read p s) (\<lambda>a.
     then_do (T_read q s) (\<lambda>b.
     then_do (T_assign p b s) (\<lambda>s1.
     T_assign q a s1)))"

text \<open>Reading and writing the flag \<^verbatim>\<open>has_value_\<close> of the optional at an address.\<close>

definition get_has_value :: "addr \<Rightarrow> 'a store \<Rightarrow> error + bool" where
  "get_has_value p s = then_do (load p s) (\<lambda>ob. Inr (has_value_m ob))"

definition set_has_value :: "addr \<Rightarrow> bool \<Rightarrow> 'a store \<Rightarrow> error + 'a store" where
  "set_has_value p b s = then_do (load p s) (\<lambda>ob. Inr (put p (ob\<lparr>has_value_m := b\<rparr>) s))"

section \<open>The member functions of fit::optional\<close>

subsection \<open>Constructors and destructor\<close>

text \<open>\<^verbatim>\<open>constexpr optional() : has_value_(false) {}\<close>\<close>

definition optional_default :: "'a store \<Rightarrow> addr \<times> 'a store" where
  "optional_default s = alloc \<lparr>has_value_m = False, value_m = Raw\<rparr> s"

text \<open>\<^verbatim>\<open>explicit constexpr optional(nullopt_t) : has_value_(false) {}\<close>\<close>

definition optional_nullopt :: "'a store \<Rightarrow> addr \<times> 'a store" where
  "optional_nullopt s = alloc \<lparr>has_value_m = False, value_m = Raw\<rparr> s"

text \<open>\<^verbatim>\<open>explicit constexpr optional(T value) : has_value_(true), value_(std::move(value)) {}\<close>\<close>

definition optional_value :: "'a \<Rightarrow> 'a store \<Rightarrow> error + (addr \<times> 'a store)" where
  "optional_value v s =
     (case alloc \<lparr>has_value_m = True, value_m = Raw\<rparr> s of (this, s1) \<Rightarrow>
        then_do (T_construct this v s1) (\<lambda>s2. Inr (this, s2)))"

text \<open>
  \<^verbatim>\<open>optional(const optional& other) : has_value_(other.has_value_)
  { if (has_value_) { new (&value_) T(other.value_); } }\<close>
\<close>

definition optional_copy :: "addr \<Rightarrow> 'a store \<Rightarrow> error + (addr \<times> 'a store)" where
  "optional_copy other s =
     then_do (get_has_value other s) (\<lambda>hv.
       case alloc \<lparr>has_value_m = hv, value_m = Raw\<rparr> s of (this, s1) \<Rightarrow>
         if hv then
           then_do (T_read other s1) (\<lambda>v.
           then_do (T_construct this v s1) (\<lambda>s2. Inr (this, s2)))
         else Inr (this, s1))"

text \<open>
  \<^verbatim>\<open>optional(optional&& other) : has_value_(other.has_value_)
  { if (has_value_) { new (&value_) T(std::move(other.value_));
                      other.value_.~T(); other.has_value_ = false; } }\<close>
\<close>

definition optional_move :: "addr \<Rightarrow> 'a store \<Rightarrow> error + (addr \<times> 'a store)" where
  "optional_move other s =
     then_do (get_has_value other s) (\<lambda>hv.
       case alloc \<lparr>has_value_m = hv, value_m = Raw\<rparr> s of (this, s1) \<Rightarrow>
         if hv then
           then_do (T_read other s1) (\<lambda>v.
           then_do (T_construct this v s1) (\<lambda>s2.
           then_do (T_destroy other s2) (\<lambda>s3.
           then_do (set_has_value other False s3) (\<lambda>s4. Inr (this, s4)))))
         else Inr (this, s1))"

text \<open>
  \<^verbatim>\<open>~optional() { if (has_value_) { value_.~T(); } }\<close>, after which the lifetime
  of the optional has ended.
\<close>

definition optional_destroy :: "addr \<Rightarrow> 'a store \<Rightarrow> error + 'a store" where
  "optional_destroy this s =
     then_do (get_has_value this s) (\<lambda>hv.
     then_do (if hv then T_destroy this s else Inr s) (\<lambda>s1.
       Inr (release this s1)))"

subsection \<open>Observers\<close>

text \<open>
  The const member functions and the comparison operators take the optional by
  const reference and are functions of the object. A returned \<^verbatim>\<open>const T&\<close> or
  \<^verbatim>\<open>const T*\<close> is the storage it designates; \<open>T_get\<close> reads through it.
  \<^verbatim>\<open>assert\<close> is taken as compiled in (no \<^verbatim>\<open>NDEBUG\<close>).
\<close>

definition has_value :: "'a optional \<Rightarrow> bool" where
  "has_value ob = has_value_m ob"

definition operator_bool :: "'a optional \<Rightarrow> bool" where
  "operator_bool ob = has_value ob"

text \<open>\<^verbatim>\<open>constexpr const T& value() const { assert(has_value_); return value_; }\<close>\<close>

definition value_const :: "'a optional \<Rightarrow> error + 'a storage" where
  "value_const ob = (if has_value_m ob then Inr (value_m ob) else Inl Assertion_failed)"

text \<open>\<^verbatim>\<open>constexpr const T* operator->() const { return &value_; }\<close>\<close>

definition operator_arrow_const :: "'a optional \<Rightarrow> error + 'a storage" where
  "operator_arrow_const ob = Inr (value_m ob)"

text \<open>\<^verbatim>\<open>constexpr const T& operator*() const { return value_; }\<close>\<close>

definition operator_star_const :: "'a optional \<Rightarrow> error + 'a storage" where
  "operator_star_const ob = Inr (value_m ob)"

text \<open>
  The overloads for a mutable optional return \<^verbatim>\<open>T&\<close> and \<^verbatim>\<open>T*\<close>, through which
  the caller may change the contained value: they give the place of the storage,
  \<open>Value_of this\<close>, in the store.
\<close>

datatype T_ref = Value_of addr

text \<open>\<^verbatim>\<open>constexpr T& value() { assert(has_value_); return value_; }\<close>\<close>

definition value_mut :: "addr \<Rightarrow> 'a store \<Rightarrow> error + T_ref" where
  "value_mut this s =
     then_do (get_has_value this s) (\<lambda>hv.
       if hv then Inr (Value_of this) else Inl Assertion_failed)"

text \<open>\<^verbatim>\<open>constexpr T* operator->() { return &value_; }\<close>\<close>

definition operator_arrow :: "addr \<Rightarrow> 'a store \<Rightarrow> error + T_ref" where
  "operator_arrow this s = Inr (Value_of this)"

text \<open>\<^verbatim>\<open>constexpr T& operator*() { return value_; }\<close>\<close>

definition operator_star :: "addr \<Rightarrow> 'a store \<Rightarrow> error + T_ref" where
  "operator_star this s = Inr (Value_of this)"

text \<open>Reading the \<open>T\<close> that a returned reference designates.\<close>

definition read_ref :: "T_ref \<Rightarrow> 'a store \<Rightarrow> error + 'a" where
  "read_ref r s = (case r of Value_of p \<Rightarrow> T_read p s)"

text \<open>
  \<^verbatim>\<open>template <typename U = T> constexpr T value_or(U&& default_value) const
  { return has_value_ ? value_ : static_cast<T>(std::forward<U>(default_value)); }\<close>
  The conversion from \<open>U\<close> to \<open>T\<close> is the parameter \<open>conv\<close>.
\<close>

definition value_or :: "('u \<Rightarrow> 'a) \<Rightarrow> 'a optional \<Rightarrow> 'u \<Rightarrow> error + 'a" where
  "value_or conv ob default_value =
     (if has_value_m ob then T_get (value_m ob) else Inr (conv default_value))"

text \<open>
  A call of a const member function \<open>f\<close> on the optional at an address: the store
  it returns is the store it was given.
\<close>

definition call_const ::
  "('a optional \<Rightarrow> error + 'r) \<Rightarrow> addr \<Rightarrow> 'a store \<Rightarrow> error + ('r \<times> 'a store)" where
  "call_const f this s =
     then_do (load this s) (\<lambda>ob. then_do (f ob) (\<lambda>r. Inr (r, s)))"

subsection \<open>Assignment, reset and swap\<close>

text \<open>\<^verbatim>\<open>void reset() { if (has_value_) { value_.~T(); has_value_ = false; } }\<close>\<close>

definition reset :: "addr \<Rightarrow> 'a store \<Rightarrow> error + 'a store" where
  "reset this s =
     then_do (get_has_value this s) (\<lambda>hv.
       if hv then
         then_do (T_destroy this s) (\<lambda>s1. set_has_value this False s1)
       else Inr s)"

text \<open>
  \<^verbatim>\<open>optional& operator=(const optional& other)\<close>; the returned \<^verbatim>\<open>*this\<close> is the
  address it was called on.
\<close>

definition assign_copy :: "addr \<Rightarrow> addr \<Rightarrow> 'a store \<Rightarrow> error + 'a store" where
  "assign_copy this other s =
     (if other = this then Inr s
      else
        then_do (get_has_value this s) (\<lambda>hv.
          if hv then
            then_do (get_has_value other s) (\<lambda>ohv.
              if ohv then
                then_do (T_read other s) (\<lambda>v. T_assign this v s)
              else reset this s)
          else
            then_do (get_has_value other s) (\<lambda>ohv.
              if ohv then
                then_do (T_read other s) (\<lambda>v.
                then_do (T_construct this v s) (\<lambda>s1.
                set_has_value this True s1))
              else Inr s)))"

text \<open>\<^verbatim>\<open>optional& operator=(optional&& other)\<close>\<close>

definition assign_move :: "addr \<Rightarrow> addr \<Rightarrow> 'a store \<Rightarrow> error + 'a store" where
  "assign_move this other s =
     (if other = this then Inr s
      else
        then_do (get_has_value this s) (\<lambda>hv.
          if hv then
            then_do (get_has_value other s) (\<lambda>ohv.
              if ohv then
                then_do (T_read other s) (\<lambda>v.
                then_do (T_assign this v s) (\<lambda>s1.
                then_do (T_destroy other s1) (\<lambda>s2.
                set_has_value other False s2)))
              else reset this s)
          else
            then_do (get_has_value other s) (\<lambda>ohv.
              if ohv then
                then_do (T_read other s) (\<lambda>v.
                then_do (T_construct this v s) (\<lambda>s1.
                then_do (set_has_value this True s1) (\<lambda>s2.
                then_do (T_destroy other s2) (\<lambda>s3.
                set_has_value other False s3))))
              else Inr s)))"

text \<open>\<^verbatim>\<open>optional& operator=(nullopt_t) { reset(); return *this; }\<close>\<close>

definition assign_nullopt :: "addr \<Rightarrow> 'a store \<Rightarrow> error + 'a store" where
  "assign_nullopt this s = reset this s"

text \<open>\<^verbatim>\<open>optional& operator=(T value)\<close>\<close>

definition assign_value :: "addr \<Rightarrow> 'a \<Rightarrow> 'a store \<Rightarrow> error + 'a store" where
  "assign_value this v s =
     then_do (get_has_value this s) (\<lambda>hv.
       if hv then T_assign this v s
       else
         then_do (T_construct this v s) (\<lambda>s1.
         set_has_value this True s1))"

text \<open>\<^verbatim>\<open>void swap(optional& other)\<close>\<close>

definition swap :: "addr \<Rightarrow> addr \<Rightarrow> 'a store \<Rightarrow> error + 'a store" where
  "swap this other s =
     (if other = this then Inr s
      else
        then_do (get_has_value this s) (\<lambda>hv.
          if hv then
            then_do (get_has_value other s) (\<lambda>ohv.
              if ohv then T_swap this other s
              else
                then_do (T_read this s) (\<lambda>v.
                then_do (T_construct other v s) (\<lambda>s1.
                then_do (set_has_value other True s1) (\<lambda>s2.
                then_do (T_destroy this s2) (\<lambda>s3.
                set_has_value this False s3)))))
          else
            then_do (get_has_value other s) (\<lambda>ohv.
              if ohv then
                then_do (T_read other s) (\<lambda>v.
                then_do (T_construct this v s) (\<lambda>s1.
                then_do (set_has_value this True s1) (\<lambda>s2.
                then_do (T_destroy other s2) (\<lambda>s3.
                set_has_value other False s3))))
              else Inr s)))"

text \<open>\<^verbatim>\<open>template <typename T> void swap(optional<T>& a, optional<T>& b) { a.swap(b); }\<close>\<close>

definition free_swap :: "addr \<Rightarrow> addr \<Rightarrow> 'a store \<Rightarrow> error + 'a store" where
  "free_swap a b s = swap a b s"

section \<open>The comparison operators\<close>

text \<open>
  \<^verbatim>\<open>*lhs\<close> inside a comparison: \<^verbatim>\<open>operator*\<close> gives the storage, and the
  \<^verbatim>\<open>==\<close> or \<^verbatim>\<open>!=\<close> of the contained type reads the \<open>T\<close> in it. The operators
  \<^verbatim>\<open>&&\<close> and \<^verbatim>\<open>||\<close> evaluate their right operand only when the left one does
  not decide the result.
\<close>

definition deref :: "'a optional \<Rightarrow> error + 'a" where
  "deref ob = then_do (operator_star_const ob) T_get"

text \<open>\<^verbatim>\<open>operator==(const optional<T>& lhs, nullopt_t) { return !lhs.has_value(); }\<close>\<close>

definition operator_eq_opt_nullopt :: "'a optional \<Rightarrow> error + bool" where
  "operator_eq_opt_nullopt lhs = Inr (\<not> has_value lhs)"

text \<open>\<^verbatim>\<open>operator!=(const optional<T>& lhs, nullopt_t) { return lhs.has_value(); }\<close>\<close>

definition operator_ne_opt_nullopt :: "'a optional \<Rightarrow> error + bool" where
  "operator_ne_opt_nullopt lhs = Inr (has_value lhs)"

text \<open>\<^verbatim>\<open>operator==(nullopt_t, const optional<T>& rhs) { return !rhs.has_value(); }\<close>\<close>

definition operator_eq_nullopt_opt :: "'a optional \<Rightarrow> error + bool" where
  "operator_eq_nullopt_opt rhs = Inr (\<not> has_value rhs)"

text \<open>\<^verbatim>\<open>operator!=(nullopt_t, const optional<T>& rhs) { return rhs.has_value(); }\<close>\<close>

definition operator_ne_nullopt_opt :: "'a optional \<Rightarrow> error + bool" where
  "operator_ne_nullopt_opt rhs = Inr (has_value rhs)"

text \<open>
  \<^verbatim>\<open>operator==(const optional<T>& lhs, const optional<U>& rhs)
  { return (lhs.has_value() == rhs.has_value()) && (!lhs.has_value() || *lhs == *rhs); }\<close>
\<close>

definition operator_eq_opt_opt ::
  "('a \<Rightarrow> 'b \<Rightarrow> bool) \<Rightarrow> 'a optional \<Rightarrow> 'b optional \<Rightarrow> error + bool" where
  "operator_eq_opt_opt eq lhs rhs =
     (if has_value lhs = has_value rhs then
        (if \<not> has_value lhs then Inr True
         else then_do (deref lhs) (\<lambda>a. then_do (deref rhs) (\<lambda>b. Inr (eq a b))))
      else Inr False)"

text \<open>
  \<^verbatim>\<open>operator!=(const optional<T>& lhs, const optional<U>& rhs)
  { return (lhs.has_value() != rhs.has_value()) || (lhs.has_value() && *lhs != *rhs); }\<close>
\<close>

definition operator_ne_opt_opt ::
  "('a \<Rightarrow> 'b \<Rightarrow> bool) \<Rightarrow> 'a optional \<Rightarrow> 'b optional \<Rightarrow> error + bool" where
  "operator_ne_opt_opt ne lhs rhs =
     (if has_value lhs \<noteq> has_value rhs then Inr True
      else
        (if has_value lhs then
           then_do (deref lhs) (\<lambda>a. then_do (deref rhs) (\<lambda>b. Inr (ne a b)))
         else Inr False))"

text \<open>
  \<^verbatim>\<open>operator==(const optional<T>& lhs, const U& rhs)
  { return lhs.has_value() && *lhs == rhs; }\<close>
\<close>

definition operator_eq_opt_val ::
  "('a \<Rightarrow> 'b \<Rightarrow> bool) \<Rightarrow> 'a optional \<Rightarrow> 'b \<Rightarrow> error + bool" where
  "operator_eq_opt_val eq lhs rhs =
     (if has_value lhs then then_do (deref lhs) (\<lambda>a. Inr (eq a rhs)) else Inr False)"

text \<open>
  \<^verbatim>\<open>operator!=(const optional<T>& lhs, const U& rhs)
  { return !lhs.has_value() || *lhs != rhs; }\<close>
\<close>

definition operator_ne_opt_val ::
  "('a \<Rightarrow> 'b \<Rightarrow> bool) \<Rightarrow> 'a optional \<Rightarrow> 'b \<Rightarrow> error + bool" where
  "operator_ne_opt_val ne lhs rhs =
     (if \<not> has_value lhs then Inr True else then_do (deref lhs) (\<lambda>a. Inr (ne a rhs)))"

text \<open>
  \<^verbatim>\<open>operator==(const T& lhs, const optional<U>& rhs)
  { return rhs.has_value() && lhs == *rhs; }\<close>
\<close>

definition operator_eq_val_opt ::
  "('a \<Rightarrow> 'b \<Rightarrow> bool) \<Rightarrow> 'a \<Rightarrow> 'b optional \<Rightarrow> error + bool" where
  "operator_eq_val_opt eq lhs rhs =
     (if has_value rhs then then_do (deref rhs) (\<lambda>b. Inr (eq lhs b)) else Inr False)"

text \<open>
  \<^verbatim>\<open>operator!=(const T& lhs, const optional<U>& rhs)
  { return !rhs.has_value() || lhs != *rhs; }\<close>
\<close>

definition operator_ne_val_opt ::
  "('a \<Rightarrow> 'b \<Rightarrow> bool) \<Rightarrow> 'a \<Rightarrow> 'b optional \<Rightarrow> error + bool" where
  "operator_ne_val_opt ne lhs rhs =
     (if \<not> has_value rhs then Inr True else then_do (deref rhs) (\<lambda>b. Inr (ne lhs b)))"

section \<open>Programs over optionals, and the invariant\<close>

text \<open>
  A client program is a sequence of calls of the public operations that change
  optionals. A constructor makes its optional at the next free address, so later
  calls of the sequence can name it.
\<close>

datatype 'a call =
    Construct_default
  | Construct_nullopt
  | Construct_value 'a
  | Construct_copy addr
  | Construct_move addr
  | Destroy addr
  | Assign_copy addr addr
  | Assign_move addr addr
  | Assign_nullopt addr
  | Assign_value addr 'a
  | Reset addr
  | Swap addr addr
  | Free_swap addr addr

fun exec :: "'a call \<Rightarrow> 'a store \<Rightarrow> error + 'a store" where
  "exec Construct_default s = Inr (snd (optional_default s))"
| "exec Construct_nullopt s = Inr (snd (optional_nullopt s))"
| "exec (Construct_value v) s = then_do (optional_value v s) (\<lambda>r. Inr (snd r))"
| "exec (Construct_copy other) s = then_do (optional_copy other s) (\<lambda>r. Inr (snd r))"
| "exec (Construct_move other) s = then_do (optional_move other s) (\<lambda>r. Inr (snd r))"
| "exec (Destroy this) s = optional_destroy this s"
| "exec (Assign_copy this other) s = assign_copy this other s"
| "exec (Assign_move this other) s = assign_move this other s"
| "exec (Assign_nullopt this) s = assign_nullopt this s"
| "exec (Assign_value this v) s = assign_value this v s"
| "exec (Reset this) s = reset this s"
| "exec (Swap this other) s = swap this other s"
| "exec (Free_swap a b) s = free_swap a b s"

fun run :: "'a call list \<Rightarrow> 'a store \<Rightarrow> error + 'a store" where
  "run [] s = Inr s"
| "run (c # cs) s = then_do (exec c s) (run cs)"

definition empty_store :: "'a store" where
  "empty_store = \<lparr>objects = [], ctor_calls = 0, dtor_calls = 0\<rparr>"

text \<open>The addresses a call names.\<close>

fun operands :: "'a call \<Rightarrow> addr list" where
  "operands Construct_default = []"
| "operands Construct_nullopt = []"
| "operands (Construct_value v) = []"
| "operands (Construct_copy other) = [other]"
| "operands (Construct_move other) = [other]"
| "operands (Destroy this) = [this]"
| "operands (Assign_copy this other) = [this, other]"
| "operands (Assign_move this other) = [this, other]"
| "operands (Assign_nullopt this) = [this]"
| "operands (Assign_value this v) = [this]"
| "operands (Reset this) = [this]"
| "operands (Swap this other) = [this, other]"
| "operands (Free_swap a b) = [a, b]"

text \<open>
  The invariant of the data model: the storage of an optional holds a live \<open>T\<close>
  exactly when its flag is set, and every \<open>T\<close> constructed in the storage of an
  optional and not yet destroyed is in the storage of an optional that is alive.
\<close>

fun holds_live :: "'a storage \<Rightarrow> bool" where
  "holds_live Raw = False"
| "holds_live (Live v) = True"

definition optional_ok :: "'a optional \<Rightarrow> bool" where
  "optional_ok ob = (holds_live (value_m ob) = has_value_m ob)"

definition cell_ok :: "'a optional option \<Rightarrow> bool" where
  "cell_ok x = (case x of None \<Rightarrow> True | Some ob \<Rightarrow> optional_ok ob)"

definition cell_live :: "'a optional option \<Rightarrow> bool" where
  "cell_live x = (case x of None \<Rightarrow> False | Some ob \<Rightarrow> holds_live (value_m ob))"

definition live_count :: "'a store \<Rightarrow> nat" where
  "live_count s = length (filter cell_live (objects s))"

definition store_ok :: "'a store \<Rightarrow> bool" where
  "store_ok s = (list_all cell_ok (objects s) \<and> ctor_calls s = dtor_calls s + live_count s)"

text \<open>
  A program uses an optional only within its lifetime: after its constructor and
  before its destructor. This is checked on the sequence of calls alone, from the
  lifetimes at its start.
\<close>

definition lifetimes :: "'a store \<Rightarrow> bool list" where
  "lifetimes s = map (\<lambda>x. case x of None \<Rightarrow> False | Some ob \<Rightarrow> True) (objects s)"

definition in_lifetime :: "bool list \<Rightarrow> addr \<Rightarrow> bool" where
  "in_lifetime ls p = (p < length ls \<and> ls ! p)"

fun step_lifetimes :: "'a call \<Rightarrow> bool list \<Rightarrow> bool list" where
  "step_lifetimes Construct_default ls = ls @ [True]"
| "step_lifetimes Construct_nullopt ls = ls @ [True]"
| "step_lifetimes (Construct_value v) ls = ls @ [True]"
| "step_lifetimes (Construct_copy other) ls = ls @ [True]"
| "step_lifetimes (Construct_move other) ls = ls @ [True]"
| "step_lifetimes (Destroy this) ls = ls[this := False]"
| "step_lifetimes (Assign_copy this other) ls = ls"
| "step_lifetimes (Assign_move this other) ls = ls"
| "step_lifetimes (Assign_nullopt this) ls = ls"
| "step_lifetimes (Assign_value this v) ls = ls"
| "step_lifetimes (Reset this) ls = ls"
| "step_lifetimes (Swap this other) ls = ls"
| "step_lifetimes (Free_swap a b) ls = ls"

fun well_formed :: "'a call list \<Rightarrow> bool list \<Rightarrow> bool" where
  "well_formed [] ls = True"
| "well_formed (c # cs) ls =
     (list_all (in_lifetime ls) (operands c) \<and> well_formed cs (step_lifetimes c ls))"

section \<open>Basic facts about the store\<close>

lemma then_do_Inr [simp]: "then_do (Inr x) f = f x"
  by (simp add: then_do_def)

lemma then_do_Inl [simp]: "then_do (Inl e) f = Inl e"
  by (simp add: then_do_def)

lemma load_Inr_iff: "load p s = Inr ob \<longleftrightarrow> p < length (objects s) \<and> objects s ! p = Some ob"
  by (simp add: load_def split: option.splits)

lemma load_bound: "load p s = Inr ob \<Longrightarrow> p < length (objects s)"
  by (simp add: load_Inr_iff)

lemma load_nth: "load p s = Inr ob \<Longrightarrow> objects s ! p = Some ob"
  by (simp add: load_Inr_iff)

lemma load_cases: "load p s = Inl No_object \<or> (\<exists>ob. load p s = Inr ob)"
  by (auto simp: load_def split: option.splits)

lemma load_put: "load p (put q ob s) = (if p = q \<and> q < length (objects s) then Inr ob else load p s)"
  by (auto simp: load_def put_def)

lemma load_ctor [simp]: "load p (s\<lparr>ctor_calls := n\<rparr>) = load p s"
  by (simp add: load_def)

lemma load_dtor [simp]: "load p (s\<lparr>dtor_calls := n\<rparr>) = load p s"
  by (simp add: load_def)

lemma put_put [simp]: "put p a (put p b s) = put p a s"
  by (simp add: put_def)

lemma objects_put [simp]: "objects (put p ob s) = (objects s)[p := Some ob]"
  by (simp add: put_def)

lemma ctor_calls_put [simp]: "ctor_calls (put p ob s) = ctor_calls s"
  by (simp add: put_def)

lemma dtor_calls_put [simp]: "dtor_calls (put p ob s) = dtor_calls s"
  by (simp add: put_def)

lemma put_ctor_update [simp]: "(put p ob s)\<lparr>ctor_calls := n\<rparr> = put p ob (s\<lparr>ctor_calls := n\<rparr>)"
  by (simp add: put_def)

lemma put_dtor_update [simp]: "(put p ob s)\<lparr>dtor_calls := n\<rparr> = put p ob (s\<lparr>dtor_calls := n\<rparr>)"
  by (simp add: put_def)

lemma filter_update_length:
  "i < length xs \<Longrightarrow>
   length (filter P (xs[i := y])) + (if P (xs ! i) then 1 else 0) =
   length (filter P xs) + (if P y then 1 else 0)"
proof (induction xs arbitrary: i)
  case Nil
  then show ?case by simp
next
  case (Cons x xs)
  show ?case
  proof (cases i)
    case 0
    then show ?thesis by simp
  next
    case (Suc j)
    with Cons.prems have "j < length xs" by simp
    from Cons.IH[OF this] Suc show ?thesis by simp
  qed
qed

lemma filter_update_int:
  assumes "i < length xs"
  shows "int (length (filter P (xs[i := y]))) =
         int (length (filter P xs)) + (if P y then 1 else 0) - (if P (xs ! i) then 1 else 0)"
  using filter_update_length[OF assms, of P y] by (auto split: if_splits)

lemma list_all_update: "list_all P xs \<Longrightarrow> P y \<Longrightarrow> list_all P (xs[i := y])"
  by (induction xs arbitrary: i) (auto split: nat.splits)

lemma store_ok_load: "store_ok s \<Longrightarrow> load p s = Inr ob \<Longrightarrow> optional_ok ob"
  by (auto simp: store_ok_def load_Inr_iff list_all_length cell_ok_def split: option.splits)

lemma store_ok_int:
  "store_ok s \<longleftrightarrow>
   list_all cell_ok (objects s) \<and>
   int (ctor_calls s) = int (dtor_calls s) + int (length (filter cell_live (objects s)))"
  by (auto simp: store_ok_def live_count_def)

lemma in_lifetime_load: "in_lifetime (lifetimes s) p \<longleftrightarrow> (\<exists>ob. load p s = Inr ob)"
  by (auto simp: in_lifetime_def lifetimes_def load_def split: option.splits)

lemma not_in_lifetime: "load p s = Inl e \<Longrightarrow> \<not> in_lifetime (lifetimes s) p"
  by (simp add: in_lifetime_load)

lemma lifetimes_update:
  assumes "p < length xs" and "xs ! p = Some old"
  shows "map (\<lambda>x. case x of None \<Rightarrow> False | Some ob \<Rightarrow> True) (xs[p := Some ob]) =
         map (\<lambda>x. case x of None \<Rightarrow> False | Some ob \<Rightarrow> True) xs"
  using assms by (simp add: list_eq_iff_nth_eq nth_list_update)

lemma lifetimes_ctor [simp]: "lifetimes (s\<lparr>ctor_calls := n\<rparr>) = lifetimes s"
  by (simp add: lifetimes_def)

lemma lifetimes_dtor [simp]: "lifetimes (s\<lparr>dtor_calls := n\<rparr>) = lifetimes s"
  by (simp add: lifetimes_def)

lemma lifetimes_put:
  assumes "in_lifetime (lifetimes s) p"
  shows "lifetimes (put p ob s) = lifetimes s"
proof -
  from assms obtain old where "load p s = Inr old"
    by (auto simp: in_lifetime_load)
  then have "p < length (objects s)" and "objects s ! p = Some old"
    by (simp_all add: load_Inr_iff)
  then show ?thesis
    by (simp add: lifetimes_def lifetimes_update)
qed

lemma load_in_lifetime: "load p s = Inr ob \<Longrightarrow> in_lifetime (lifetimes s) p"
  by (auto simp: in_lifetime_load)

lemmas prim_defs = get_has_value_def set_has_value_def T_read_def T_get_def T_assign_def
  T_construct_def T_destroy_def T_swap_def

lemmas ok_defs = cell_ok_def cell_live_def optional_ok_def has_value_def

section \<open>What each member function does to a store\<close>

lemma reset_effect:
  assumes "load this s = Inr t" and "optional_ok t"
  shows "reset this s = Inr
     (if has_value t then put this \<lparr>has_value_m = False, value_m = Raw\<rparr> (s\<lparr>dtor_calls := dtor_calls s + 1\<rparr>)
      else s)"
  using assms load_bound[OF assms(1)]
  by (cases t; cases "value_m t") (simp_all add: prim_defs reset_def ok_defs load_put)

lemma reset_missing: "load this s = Inl e \<Longrightarrow> reset this s = Inl e"
  by (simp add: reset_def get_has_value_def)

lemma reset_step:
  assumes "store_ok s"
  shows "(\<exists>s'. reset this s = Inr s' \<and> store_ok s' \<and> lifetimes s' = lifetimes s) \<or>
         (reset this s = Inl No_object \<and> \<not> in_lifetime (lifetimes s) this)"
proof -
  consider (none) "load this s = Inl No_object" | (some) t where "load this s = Inr t"
    using load_cases[of this s] by blast
  then show ?thesis
  proof cases
    case none
    then show ?thesis by (simp add: reset_missing not_in_lifetime)
  next
    case some
    have ok: "optional_ok t" using assms some by (rule store_ok_load)
    note b = load_bound[OF some] load_nth[OF some]
    have "store_ok (put this \<lparr>has_value_m = False, value_m = Raw\<rparr> (s\<lparr>dtor_calls := dtor_calls s + 1\<rparr>))"
      if "has_value t"
      using assms ok b that
      by (simp add: store_ok_int filter_update_int list_all_update ok_defs)
    then show ?thesis
      using assms load_in_lifetime[OF some] by (simp add: reset_effect[OF some ok] lifetimes_put)
  qed
qed

lemma assign_move_effect:
  assumes "load this s = Inr t" and "load other s = Inr ot"
    and "optional_ok t" and "optional_ok ot" and "other \<noteq> this"
  shows "assign_move this other s = Inr
     (if has_value t then
        (if has_value ot then
           put other \<lparr>has_value_m = False, value_m = Raw\<rparr>
             (put this (t\<lparr>value_m := value_m ot\<rparr>) (s\<lparr>dtor_calls := dtor_calls s + 1\<rparr>))
         else put this \<lparr>has_value_m = False, value_m = Raw\<rparr> (s\<lparr>dtor_calls := dtor_calls s + 1\<rparr>))
      else
        (if has_value ot then
           put other \<lparr>has_value_m = False, value_m = Raw\<rparr>
             (put this \<lparr>has_value_m = True, value_m = value_m ot\<rparr>
               (s\<lparr>ctor_calls := ctor_calls s + 1, dtor_calls := dtor_calls s + 1\<rparr>))
         else s))"
  using assms load_bound[OF assms(1)] load_bound[OF assms(2)]
  by (cases t; cases ot; cases "value_m t"; cases "value_m ot")
     (simp_all add: prim_defs assign_move_def reset_def ok_defs load_put)

lemma assign_move_missing_this:
  "other \<noteq> this \<Longrightarrow> load this s = Inl e \<Longrightarrow> assign_move this other s = Inl e"
  by (simp add: assign_move_def get_has_value_def)

lemma assign_move_missing_other:
  "other \<noteq> this \<Longrightarrow> load this s = Inr t \<Longrightarrow> load other s = Inl e \<Longrightarrow>
   assign_move this other s = Inl e"
  by (simp add: assign_move_def get_has_value_def)

lemma binary_cases:
  obtains (missing_this) "load this s = Inl No_object"
  | (missing_other) t where "load this s = Inr t" and "load other s = Inl No_object"
  | (both) t ot where "load this s = Inr t" and "load other s = Inr ot"
  using load_cases[of this s] load_cases[of other s] by blast

lemma assign_move_step:
  assumes "store_ok s"
  shows "(\<exists>s'. assign_move this other s = Inr s' \<and> store_ok s' \<and> lifetimes s' = lifetimes s) \<or>
         (assign_move this other s = Inl No_object \<and>
          \<not> (in_lifetime (lifetimes s) this \<and> in_lifetime (lifetimes s) other))"
proof (cases "other = this")
  case True
  then show ?thesis using assms by (simp add: assign_move_def)
next
  case False
  show ?thesis
  proof (cases rule: binary_cases[where this = this and other = other and s = s])
    case missing_this
    then show ?thesis using False by (simp add: assign_move_missing_this not_in_lifetime)
  next
    case (missing_other t)
    then show ?thesis using False by (simp add: assign_move_missing_other not_in_lifetime)
  next
    case (both t ot)
    have ok: "optional_ok t" "optional_ok ot"
      using assms both by (auto intro: store_ok_load)
    note b = load_bound[OF both(1)] load_nth[OF both(1)] load_bound[OF both(2)] load_nth[OF both(2)]
    note l = load_in_lifetime[OF both(1)] load_in_lifetime[OF both(2)]
    show ?thesis
      using assms ok b l False
      by (simp add: assign_move_effect[OF both ok False] lifetimes_put)
         (simp add: store_ok_int filter_update_int list_all_update ok_defs nth_list_update)
  qed
qed

lemma assign_copy_effect:
  assumes "load this s = Inr t" and "load other s = Inr ot"
    and "optional_ok t" and "optional_ok ot" and "other \<noteq> this"
  shows "assign_copy this other s = Inr
     (if has_value t then
        (if has_value ot then put this (t\<lparr>value_m := value_m ot\<rparr>) s
         else put this \<lparr>has_value_m = False, value_m = Raw\<rparr> (s\<lparr>dtor_calls := dtor_calls s + 1\<rparr>))
      else
        (if has_value ot then
           put this \<lparr>has_value_m = True, value_m = value_m ot\<rparr> (s\<lparr>ctor_calls := ctor_calls s + 1\<rparr>)
         else s))"
  using assms load_bound[OF assms(1)] load_bound[OF assms(2)]
  by (cases t; cases ot; cases "value_m t"; cases "value_m ot")
     (simp_all add: prim_defs assign_copy_def reset_def ok_defs load_put)

lemma assign_copy_missing_this:
  "other \<noteq> this \<Longrightarrow> load this s = Inl e \<Longrightarrow> assign_copy this other s = Inl e"
  by (simp add: assign_copy_def get_has_value_def)

lemma assign_copy_missing_other:
  "other \<noteq> this \<Longrightarrow> load this s = Inr t \<Longrightarrow> load other s = Inl e \<Longrightarrow>
   assign_copy this other s = Inl e"
  by (simp add: assign_copy_def get_has_value_def)

lemma assign_copy_step:
  assumes "store_ok s"
  shows "(\<exists>s'. assign_copy this other s = Inr s' \<and> store_ok s' \<and> lifetimes s' = lifetimes s) \<or>
         (assign_copy this other s = Inl No_object \<and>
          \<not> (in_lifetime (lifetimes s) this \<and> in_lifetime (lifetimes s) other))"
proof (cases "other = this")
  case True
  then show ?thesis using assms by (simp add: assign_copy_def)
next
  case False
  show ?thesis
  proof (cases rule: binary_cases[where this = this and other = other and s = s])
    case missing_this
    then show ?thesis using False by (simp add: assign_copy_missing_this not_in_lifetime)
  next
    case (missing_other t)
    then show ?thesis using False by (simp add: assign_copy_missing_other not_in_lifetime)
  next
    case (both t ot)
    have ok: "optional_ok t" "optional_ok ot"
      using assms both by (auto intro: store_ok_load)
    note b = load_bound[OF both(1)] load_nth[OF both(1)] load_bound[OF both(2)] load_nth[OF both(2)]
    note l = load_in_lifetime[OF both(1)] load_in_lifetime[OF both(2)]
    show ?thesis
      using assms ok b l False
      by (simp add: assign_copy_effect[OF both ok False] lifetimes_put)
         (simp add: store_ok_int filter_update_int list_all_update ok_defs nth_list_update)
  qed
qed

lemma swap_effect:
  assumes "load this s = Inr t" and "load other s = Inr ot"
    and "optional_ok t" and "optional_ok ot" and "other \<noteq> this"
  shows "swap this other s = Inr
     (if has_value t then
        (if has_value ot then
           put other (ot\<lparr>value_m := value_m t\<rparr>) (put this (t\<lparr>value_m := value_m ot\<rparr>) s)
         else
           put this \<lparr>has_value_m = False, value_m = Raw\<rparr>
             (put other \<lparr>has_value_m = True, value_m = value_m t\<rparr>
               (s\<lparr>ctor_calls := ctor_calls s + 1, dtor_calls := dtor_calls s + 1\<rparr>)))
      else
        (if has_value ot then
           put other \<lparr>has_value_m = False, value_m = Raw\<rparr>
             (put this \<lparr>has_value_m = True, value_m = value_m ot\<rparr>
               (s\<lparr>ctor_calls := ctor_calls s + 1, dtor_calls := dtor_calls s + 1\<rparr>))
         else s))"
  using assms load_bound[OF assms(1)] load_bound[OF assms(2)]
  by (cases t; cases ot; cases "value_m t"; cases "value_m ot")
     (simp_all add: prim_defs swap_def ok_defs load_put)

lemma swap_missing_this:
  "other \<noteq> this \<Longrightarrow> load this s = Inl e \<Longrightarrow> swap this other s = Inl e"
  by (simp add: swap_def get_has_value_def)

lemma swap_missing_other:
  "other \<noteq> this \<Longrightarrow> load this s = Inr t \<Longrightarrow> load other s = Inl e \<Longrightarrow>
   swap this other s = Inl e"
  by (simp add: swap_def get_has_value_def)

lemma swap_step:
  assumes "store_ok s"
  shows "(\<exists>s'. swap this other s = Inr s' \<and> store_ok s' \<and> lifetimes s' = lifetimes s) \<or>
         (swap this other s = Inl No_object \<and>
          \<not> (in_lifetime (lifetimes s) this \<and> in_lifetime (lifetimes s) other))"
proof (cases "other = this")
  case True
  then show ?thesis using assms by (simp add: swap_def)
next
  case False
  show ?thesis
  proof (cases rule: binary_cases[where this = this and other = other and s = s])
    case missing_this
    then show ?thesis using False by (simp add: swap_missing_this not_in_lifetime)
  next
    case (missing_other t)
    then show ?thesis using False by (simp add: swap_missing_other not_in_lifetime)
  next
    case (both t ot)
    have ok: "optional_ok t" "optional_ok ot"
      using assms both by (auto intro: store_ok_load)
    note b = load_bound[OF both(1)] load_nth[OF both(1)] load_bound[OF both(2)] load_nth[OF both(2)]
    note l = load_in_lifetime[OF both(1)] load_in_lifetime[OF both(2)]
    show ?thesis
      using assms ok b l False
      by (simp add: swap_effect[OF both ok False] lifetimes_put)
         (simp add: store_ok_int filter_update_int list_all_update ok_defs nth_list_update)
  qed
qed

lemma assign_value_effect:
  assumes "load this s = Inr t" and "optional_ok t"
  shows "assign_value this v s = Inr
     (if has_value t then put this (t\<lparr>value_m := Live v\<rparr>) s
      else put this \<lparr>has_value_m = True, value_m = Live v\<rparr> (s\<lparr>ctor_calls := ctor_calls s + 1\<rparr>))"
  using assms load_bound[OF assms(1)]
  by (cases t; cases "value_m t") (simp_all add: prim_defs assign_value_def ok_defs load_put)

lemma assign_value_missing: "load this s = Inl e \<Longrightarrow> assign_value this v s = Inl e"
  by (simp add: assign_value_def get_has_value_def)

lemma assign_value_step:
  assumes "store_ok s"
  shows "(\<exists>s'. assign_value this v s = Inr s' \<and> store_ok s' \<and> lifetimes s' = lifetimes s) \<or>
         (assign_value this v s = Inl No_object \<and> \<not> in_lifetime (lifetimes s) this)"
proof -
  consider (none) "load this s = Inl No_object" | (some) t where "load this s = Inr t"
    using load_cases[of this s] by blast
  then show ?thesis
  proof cases
    case none
    then show ?thesis by (simp add: assign_value_missing not_in_lifetime)
  next
    case some
    have ok: "optional_ok t" using assms some by (rule store_ok_load)
    note b = load_bound[OF some] load_nth[OF some]
    show ?thesis
      using assms ok b load_in_lifetime[OF some]
      by (simp add: assign_value_effect[OF some ok] lifetimes_put)
         (simp add: store_ok_int filter_update_int list_all_update ok_defs)
  qed
qed

section \<open>Constructors and the destructor\<close>

lemma load_append:
  "load p (s\<lparr>objects := objects s @ [Some ob]\<rparr>) =
   (if p = length (objects s) then Inr ob else load p s)"
  by (auto simp: load_def nth_append)

lemma lifetimes_append [simp]:
  "lifetimes (s\<lparr>objects := objects s @ [Some ob]\<rparr>) = lifetimes s @ [True]"
  by (simp add: lifetimes_def)

lemma store_ok_append:
  "store_ok s \<Longrightarrow> \<not> has_value_m ob \<Longrightarrow> value_m ob = Raw \<Longrightarrow>
   store_ok (s\<lparr>objects := objects s @ [Some ob]\<rparr>)"
  by (simp add: store_ok_int ok_defs)

lemma optional_default_effect:
  "optional_default s =
   (length (objects s), s\<lparr>objects := objects s @ [Some \<lparr>has_value_m = False, value_m = Raw\<rparr>]\<rparr>)"
  by (simp add: optional_default_def alloc_def)

lemma optional_nullopt_effect:
  "optional_nullopt s =
   (length (objects s), s\<lparr>objects := objects s @ [Some \<lparr>has_value_m = False, value_m = Raw\<rparr>]\<rparr>)"
  by (simp add: optional_nullopt_def alloc_def)

lemma optional_value_effect:
  "optional_value v s = Inr
     (length (objects s),
      s\<lparr>objects := objects s @ [Some \<lparr>has_value_m = True, value_m = Live v\<rparr>],
        ctor_calls := ctor_calls s + 1\<rparr>)"
  by (simp add: optional_value_def alloc_def T_construct_def load_def put_def)

lemma optional_copy_effect:
  assumes "load other s = Inr ot" and "optional_ok ot"
  shows "optional_copy other s = Inr
     (length (objects s),
      if has_value ot then
        s\<lparr>objects := objects s @ [Some \<lparr>has_value_m = True, value_m = value_m ot\<rparr>],
          ctor_calls := ctor_calls s + 1\<rparr>
      else s\<lparr>objects := objects s @ [Some \<lparr>has_value_m = False, value_m = Raw\<rparr>]\<rparr>)"
  using assms load_bound[OF assms(1)] load_nth[OF assms(1)]
  by (cases ot; cases "value_m ot")
     (simp_all add: optional_copy_def alloc_def prim_defs ok_defs load_def put_def nth_append)

lemma optional_move_effect:
  assumes "load other s = Inr ot" and "optional_ok ot"
  shows "optional_move other s = Inr
     (length (objects s),
      if has_value ot then
        s\<lparr>objects := (objects s)[other := Some \<lparr>has_value_m = False, value_m = Raw\<rparr>] @
                       [Some \<lparr>has_value_m = True, value_m = value_m ot\<rparr>],
          ctor_calls := ctor_calls s + 1, dtor_calls := dtor_calls s + 1\<rparr>
      else s\<lparr>objects := objects s @ [Some \<lparr>has_value_m = False, value_m = Raw\<rparr>]\<rparr>)"
  using assms load_bound[OF assms(1)] load_nth[OF assms(1)]
  by (cases ot; cases "value_m ot")
     (simp_all add: optional_move_def alloc_def prim_defs ok_defs load_def put_def nth_append
        list_update_append)

lemma optional_copy_missing: "load other s = Inl e \<Longrightarrow> optional_copy other s = Inl e"
  by (simp add: optional_copy_def get_has_value_def)

lemma optional_move_missing: "load other s = Inl e \<Longrightarrow> optional_move other s = Inl e"
  by (simp add: optional_move_def get_has_value_def)

lemma optional_destroy_effect:
  assumes "load this s = Inr t" and "optional_ok t"
  shows "optional_destroy this s = Inr
     (if has_value t then
        s\<lparr>objects := (objects s)[this := None], dtor_calls := dtor_calls s + 1\<rparr>
      else s\<lparr>objects := (objects s)[this := None]\<rparr>)"
  using assms load_bound[OF assms(1)]
  by (cases t; cases "value_m t")
     (simp_all add: optional_destroy_def release_def prim_defs ok_defs put_def)

lemma optional_destroy_missing: "load this s = Inl e \<Longrightarrow> optional_destroy this s = Inl e"
  by (simp add: optional_destroy_def get_has_value_def)

lemma lifetimes_release:
  "lifetimes (s\<lparr>objects := (objects s)[p := None]\<rparr>) = (lifetimes s)[p := False]"
  by (simp add: lifetimes_def map_update)

lemma optional_copy_step:
  assumes "store_ok s"
  shows "(\<exists>r. optional_copy other s = Inr r \<and> store_ok (snd r) \<and>
              lifetimes (snd r) = lifetimes s @ [True]) \<or>
         (optional_copy other s = Inl No_object \<and> \<not> in_lifetime (lifetimes s) other)"
proof -
  consider (none) "load other s = Inl No_object" | (some) ot where "load other s = Inr ot"
    using load_cases[of other s] by blast
  then show ?thesis
  proof cases
    case none
    then show ?thesis by (simp add: optional_copy_missing not_in_lifetime)
  next
    case some
    have ok: "optional_ok ot" using assms some by (rule store_ok_load)
    show ?thesis
      using assms ok
      by (simp add: optional_copy_effect[OF some ok])
         (simp add: store_ok_int ok_defs)
  qed
qed

lemma optional_move_step:
  assumes "store_ok s"
  shows "(\<exists>r. optional_move other s = Inr r \<and> store_ok (snd r) \<and>
              lifetimes (snd r) = lifetimes s @ [True]) \<or>
         (optional_move other s = Inl No_object \<and> \<not> in_lifetime (lifetimes s) other)"
proof -
  consider (none) "load other s = Inl No_object" | (some) ot where "load other s = Inr ot"
    using load_cases[of other s] by blast
  then show ?thesis
  proof cases
    case none
    then show ?thesis by (simp add: optional_move_missing not_in_lifetime)
  next
    case some
    have ok: "optional_ok ot" using assms some by (rule store_ok_load)
    note b = load_bound[OF some] load_nth[OF some]
    have "lifetimes (s\<lparr>objects := (objects s)[other := Some ob] @ [Some ob']\<rparr>) = lifetimes s @ [True]"
      for ob ob' :: "'a optional"
      using b by (simp add: lifetimes_def lifetimes_update)
    then show ?thesis
      using assms ok b
      by (simp add: optional_move_effect[OF some ok])
         (simp add: store_ok_int filter_update_int list_all_update ok_defs)
  qed
qed

lemma optional_destroy_step:
  assumes "store_ok s"
  shows "(\<exists>s'. optional_destroy this s = Inr s' \<and> store_ok s' \<and>
               lifetimes s' = (lifetimes s)[this := False]) \<or>
         (optional_destroy this s = Inl No_object \<and> \<not> in_lifetime (lifetimes s) this)"
proof -
  consider (none) "load this s = Inl No_object" | (some) t where "load this s = Inr t"
    using load_cases[of this s] by blast
  then show ?thesis
  proof cases
    case none
    then show ?thesis by (simp add: optional_destroy_missing not_in_lifetime)
  next
    case some
    have ok: "optional_ok t" using assms some by (rule store_ok_load)
    note b = load_bound[OF some] load_nth[OF some]
    show ?thesis
      using assms ok b
      by (simp add: optional_destroy_effect[OF some ok] lifetimes_release)
         (simp add: store_ok_int filter_update_int list_all_update ok_defs)
  qed
qed

section \<open>Programs\<close>

lemma exec_step:
  assumes "store_ok s"
  shows "(\<exists>s'. exec c s = Inr s' \<and> store_ok s' \<and>
               lifetimes s' = step_lifetimes c (lifetimes s)) \<or>
         (exec c s = Inl No_object \<and> \<not> list_all (in_lifetime (lifetimes s)) (operands c))"
proof (cases c)
  case Construct_default
  then show ?thesis using assms by (simp add: optional_default_effect store_ok_append)
next
  case Construct_nullopt
  then show ?thesis using assms by (simp add: optional_nullopt_effect store_ok_append)
next
  case (Construct_value v)
  then show ?thesis using assms
    by (simp add: optional_value_effect) (simp add: store_ok_int ok_defs)
next
  case (Construct_copy other)
  then show ?thesis using optional_copy_step[OF assms, of other] by auto
next
  case (Construct_move other)
  then show ?thesis using optional_move_step[OF assms, of other] by auto
next
  case (Destroy this)
  then show ?thesis using optional_destroy_step[OF assms, of this] by simp
next
  case (Assign_copy this other)
  then show ?thesis using assign_copy_step[OF assms, of this other] by simp
next
  case (Assign_move this other)
  then show ?thesis using assign_move_step[OF assms, of this other] by simp
next
  case (Assign_nullopt this)
  then show ?thesis using reset_step[OF assms, of this] by (simp add: assign_nullopt_def)
next
  case (Assign_value this v)
  then show ?thesis using assign_value_step[OF assms, of this v] by simp
next
  case (Reset this)
  then show ?thesis using reset_step[OF assms, of this] by simp
next
  case (Swap this other)
  then show ?thesis using swap_step[OF assms, of this other] by simp
next
  case (Free_swap a b)
  then show ?thesis using swap_step[OF assms, of a b] by (simp add: free_swap_def)
qed

lemma run_step:
  assumes "store_ok s"
  shows "(\<exists>s'. run cs s = Inr s' \<and> store_ok s') \<or>
         (run cs s = Inl No_object \<and> \<not> well_formed cs (lifetimes s))"
  using assms
proof (induction cs arbitrary: s)
  case Nil
  then show ?case by simp
next
  case (Cons c cs)
  from exec_step[OF Cons.prems, of c] show ?case
  proof
    assume "\<exists>s'. exec c s = Inr s' \<and> store_ok s' \<and> lifetimes s' = step_lifetimes c (lifetimes s)"
    then obtain s' where s': "exec c s = Inr s'" "store_ok s'"
      "lifetimes s' = step_lifetimes c (lifetimes s)" by blast
    from Cons.IH[OF s'(2)] s'(1,3) show ?thesis by auto
  next
    assume "exec c s = Inl No_object \<and> \<not> list_all (in_lifetime (lifetimes s)) (operands c)"
    then show ?thesis by simp
  qed
qed

lemma none_not_live: "list_all (\<lambda>x. x = None) xs \<Longrightarrow> filter cell_live xs = []"
  by (induction xs) (auto simp: cell_live_def)

lemma store_ok_empty: "store_ok empty_store"
  by (simp add: store_ok_def empty_store_def live_count_def)

lemmas member_defs = optional_default_def optional_nullopt_def optional_value_def optional_copy_def
  optional_move_def optional_destroy_def reset_def assign_copy_def assign_move_def
  assign_nullopt_def assign_value_def swap_def free_swap_def

lemmas store_defs = load_def put_def alloc_def release_def

lemmas observer_defs = has_value_def operator_bool_def value_const_def operator_arrow_const_def
  operator_star_const_def value_mut_def operator_arrow_def operator_star_def read_ref_def
  value_or_def call_const_def deref_def

lemmas comparison_defs = operator_eq_opt_nullopt_def operator_ne_opt_nullopt_def
  operator_eq_nullopt_opt_def operator_ne_nullopt_opt_def operator_eq_opt_opt_def
  operator_ne_opt_opt_def operator_eq_opt_val_def operator_ne_opt_val_def
  operator_eq_val_opt_def operator_ne_val_opt_def

section \<open>The claims\<close>

text \<open>
  C1. From a store in which every optional has a live \<open>T\<close> in its storage exactly when
  its flag is set (the empty store is one), every sequence of the public operations
  (the constructors, copy and move construction, copy and move assignment, value
  and sentinel assignment, reset, member and free swap, destruction) ends in such a
  store again: for every optional, the storage holds a live \<open>T\<close> iff \<open>has_value\<close> is
  true. No call reads, assigns or destroys a \<open>T\<close> that is not alive (the only error
  a sequence can end in is \<open>No_object\<close>, and only when it uses an optional outside its
  lifetime), so no value is destroyed twice; and the constructions exceed the
  destructions by exactly the number of live values, so once every optional is
  destroyed each value constructed has been destroyed exactly once.
\<close>

theorem optional_storage_invariant:
  assumes "store_ok s"
  shows "case run cs s of
           Inl e \<Rightarrow> e = No_object \<and> \<not> well_formed cs (lifetimes s)
         | Inr s' \<Rightarrow>
             (\<forall>p ob. load p s' = Inr ob \<longrightarrow> holds_live (value_m ob) = has_value ob) \<and>
             ctor_calls s' = dtor_calls s' + live_count s' \<and>
             (list_all (\<lambda>x. x = None) (objects s') \<longrightarrow> ctor_calls s' = dtor_calls s')"
proof -
  from run_step[OF assms, of cs] show ?thesis
  proof
    assume "\<exists>s'. run cs s = Inr s' \<and> store_ok s'"
    then obtain s' where s': "run cs s = Inr s'" "store_ok s'" by blast
    have "holds_live (value_m ob) = has_value ob" if "load p s' = Inr ob" for p ob
      using store_ok_load[OF s'(2) that] by (simp add: optional_ok_def has_value_def)
    moreover have "ctor_calls s' = dtor_calls s' + live_count s'"
      using s'(2) by (simp add: store_ok_def)
    moreover have "ctor_calls s' = dtor_calls s'" if "list_all (\<lambda>x. x = None) (objects s')"
      using s'(2) none_not_live[OF that] by (simp add: store_ok_def live_count_def)
    ultimately show ?thesis using s'(1) by simp
  next
    assume "run cs s = Inl No_object \<and> \<not> well_formed cs (lifetimes s)"
    then show ?thesis by simp
  qed
qed

theorem optional_storage_invariant_witness:
  "store_ok (empty_store :: int store) \<and>
   well_formed [Construct_value (42 :: int), Construct_value 55, Construct_default, Free_swap 0 1, Reset 0,
        Assign_copy 0 1, Assign_move 2 0, Construct_move 2, Swap 0 1, Assign_value 0 7,
        Destroy 3, Destroy 1, Destroy 0, Destroy 2] (lifetimes (empty_store :: int store)) \<and>
   run [Construct_value (42 :: int), Construct_value 55, Construct_default, Free_swap 0 1, Reset 0,
        Assign_copy 0 1, Assign_move 2 0, Construct_move 2, Swap 0 1, Assign_value 0 7,
        Destroy 3, Destroy 1, Destroy 0, Destroy 2] empty_store =
     Inr \<lparr>objects = [None, None, None, None], ctor_calls = 6, dtor_calls = 6\<rparr>"
  using optional_storage_invariant[OF store_ok_empty,
      of "[Construct_value (42 :: int), Construct_value 55, Construct_default, Free_swap 0 1, Reset 0,
        Assign_copy 0 1, Assign_move 2 0, Construct_move 2, Swap 0 1, Assign_value 0 7,
        Destroy 3, Destroy 1, Destroy 0, Destroy 2]"]
  by (simp add: store_ok_def live_count_def empty_store_def member_defs store_defs prim_defs
      lifetimes_def in_lifetime_def)

text \<open>
  C2, as the code has it. On an optional that has a value, \<^verbatim>\<open>operator->\<close> and unary
  \<^verbatim>\<open>operator*\<close> (const and mutable) give what \<^verbatim>\<open>value()\<close> gives: the place of the
  contained \<open>T\<close>, and reading through it yields the contained value. On an empty
  optional they differ: \<^verbatim>\<open>value()\<close> fails its assertion, whereas the dereference
  operators check nothing and return the place of the raw storage, in which no \<open>T\<close>
  is alive, so that only a later read through the result is an access outside the
  lifetime of a \<open>T\<close>.
\<close>

theorem dereference_operators:
  assumes "load this s = Inr ob" and "optional_ok ob"
  shows "(has_value ob \<longrightarrow>
            (\<exists>v. value_m ob = Live v \<and>
                 value_const ob = Inr (Live v) \<and>
                 operator_star_const ob = value_const ob \<and>
                 operator_arrow_const ob = value_const ob \<and>
                 value_mut this s = Inr (Value_of this) \<and>
                 operator_star this s = value_mut this s \<and>
                 operator_arrow this s = value_mut this s \<and>
                 read_ref (Value_of this) s = Inr v)) \<and>
         (\<not> has_value ob \<longrightarrow>
            value_const ob = Inl Assertion_failed \<and>
            value_mut this s = Inl Assertion_failed \<and>
            operator_star_const ob = Inr Raw \<and>
            operator_arrow_const ob = Inr Raw \<and>
            operator_star this s = Inr (Value_of this) \<and>
            operator_arrow this s = Inr (Value_of this) \<and>
            read_ref (Value_of this) s = Inl Dead_access)"
  using assms
  by (cases "value_m ob")
     (simp_all add: observer_defs get_has_value_def T_read_def T_get_def optional_ok_def)

theorem dereference_operators_witness:
  "load 0 \<lparr>objects = [Some \<lparr>has_value_m = True, value_m = Live (42 :: int)\<rparr>, Some \<lparr>has_value_m = False, value_m = (Raw :: int storage)\<rparr>], ctor_calls = 1, dtor_calls = 0\<rparr> = Inr \<lparr>has_value_m = True, value_m = Live (42 :: int)\<rparr> \<and>
   optional_ok \<lparr>has_value_m = True, value_m = Live (42 :: int)\<rparr> \<and> has_value \<lparr>has_value_m = True, value_m = Live (42 :: int)\<rparr> \<and>
   operator_star 0 \<lparr>objects = [Some \<lparr>has_value_m = True, value_m = Live (42 :: int)\<rparr>, Some \<lparr>has_value_m = False, value_m = (Raw :: int storage)\<rparr>], ctor_calls = 1, dtor_calls = 0\<rparr> =
     value_mut 0 \<lparr>objects = [Some \<lparr>has_value_m = True, value_m = Live (42 :: int)\<rparr>, Some \<lparr>has_value_m = False, value_m = (Raw :: int storage)\<rparr>], ctor_calls = 1, dtor_calls = 0\<rparr> \<and>
   read_ref (Value_of 0) \<lparr>objects = [Some \<lparr>has_value_m = True, value_m = Live (42 :: int)\<rparr>, Some \<lparr>has_value_m = False, value_m = (Raw :: int storage)\<rparr>], ctor_calls = 1, dtor_calls = 0\<rparr> = Inr 42 \<and>
   load 1 \<lparr>objects = [Some \<lparr>has_value_m = True, value_m = Live (42 :: int)\<rparr>, Some \<lparr>has_value_m = False, value_m = (Raw :: int storage)\<rparr>], ctor_calls = 1, dtor_calls = 0\<rparr> = Inr \<lparr>has_value_m = False, value_m = (Raw :: int storage)\<rparr> \<and>
   optional_ok \<lparr>has_value_m = False, value_m = (Raw :: int storage)\<rparr> \<and> \<not> has_value \<lparr>has_value_m = False, value_m = (Raw :: int storage)\<rparr> \<and>
   value_mut 1 \<lparr>objects = [Some \<lparr>has_value_m = True, value_m = Live (42 :: int)\<rparr>, Some \<lparr>has_value_m = False, value_m = (Raw :: int storage)\<rparr>], ctor_calls = 1, dtor_calls = 0\<rparr> = Inl Assertion_failed \<and>
   operator_star 1 \<lparr>objects = [Some \<lparr>has_value_m = True, value_m = Live (42 :: int)\<rparr>, Some \<lparr>has_value_m = False, value_m = (Raw :: int storage)\<rparr>], ctor_calls = 1, dtor_calls = 0\<rparr> = Inr (Value_of 1) \<and>
   read_ref (Value_of 1) \<lparr>objects = [Some \<lparr>has_value_m = True, value_m = Live (42 :: int)\<rparr>, Some \<lparr>has_value_m = False, value_m = (Raw :: int storage)\<rparr>], ctor_calls = 1, dtor_calls = 0\<rparr> =
     Inl Dead_access"
  using dereference_operators[of 0 "\<lparr>objects = [Some \<lparr>has_value_m = True, value_m = Live (42 :: int)\<rparr>, Some \<lparr>has_value_m = False, value_m = (Raw :: int storage)\<rparr>], ctor_calls = 1, dtor_calls = 0\<rparr>" "\<lparr>has_value_m = True, value_m = Live (42 :: int)\<rparr>"]
        dereference_operators[of 1 "\<lparr>objects = [Some \<lparr>has_value_m = True, value_m = Live (42 :: int)\<rparr>, Some \<lparr>has_value_m = False, value_m = (Raw :: int storage)\<rparr>], ctor_calls = 1, dtor_calls = 0\<rparr>" "\<lparr>has_value_m = False, value_m = (Raw :: int storage)\<rparr>"]
  by (simp add: load_def optional_ok_def has_value_def)

text \<open>
  C2 as stated fails: on the empty optional \<^verbatim>\<open>value()\<close> stops with the failed
  assertion, while \<^verbatim>\<open>operator*\<close> and \<^verbatim>\<open>operator->\<close> return without any failure.
\<close>

theorem dereference_unchecked_counterexample:
  "value_const \<lparr>has_value_m = False, value_m = (Raw :: int storage)\<rparr> = Inl Assertion_failed \<and>
   operator_star_const \<lparr>has_value_m = False, value_m = (Raw :: int storage)\<rparr> = Inr Raw \<and>
   operator_arrow_const \<lparr>has_value_m = False, value_m = (Raw :: int storage)\<rparr> = Inr Raw \<and>
   value_mut 0 \<lparr>objects = [Some \<lparr>has_value_m = False, value_m = (Raw :: int storage)\<rparr>],
                ctor_calls = 0, dtor_calls = 0\<rparr> = Inl Assertion_failed \<and>
   operator_star 0 \<lparr>objects = [Some \<lparr>has_value_m = False, value_m = (Raw :: int storage)\<rparr>],
                ctor_calls = 0, dtor_calls = 0\<rparr> = Inr (Value_of 0) \<and>
   operator_arrow 0 \<lparr>objects = [Some \<lparr>has_value_m = False, value_m = (Raw :: int storage)\<rparr>],
                ctor_calls = 0, dtor_calls = 0\<rparr> = Inr (Value_of 0) \<and>
   operator_star_const \<lparr>has_value_m = False, value_m = (Raw :: int storage)\<rparr> \<noteq>
     value_const \<lparr>has_value_m = False, value_m = (Raw :: int storage)\<rparr> \<and>
   operator_star 0 \<lparr>objects = [Some \<lparr>has_value_m = False, value_m = (Raw :: int storage)\<rparr>],
                ctor_calls = 0, dtor_calls = 0\<rparr> \<noteq>
     value_mut 0 \<lparr>objects = [Some \<lparr>has_value_m = False, value_m = (Raw :: int storage)\<rparr>],
                ctor_calls = 0, dtor_calls = 0\<rparr>"
  by (simp add: observer_defs get_has_value_def load_def)

text \<open>
  C3. Move construction from a source that is a valid optional makes a new optional.
  If the source has a value, the new optional holds that value, the source's \<open>T\<close>
  has been destroyed (one construction and one destruction are counted) and the
  source reads \<open>has_value\<close> false; if the source is empty, the new optional is empty
  and the source is as it was. In both cases the source holds no live value
  afterwards, and no other optional changes.
\<close>

theorem move_construction:
  assumes "load other s = Inr ot" and "optional_ok ot"
  shows "\<exists>this s'. optional_move other s = Inr (this, s') \<and>
           load this s = Inl No_object \<and>
           load this s' = Inr \<lparr>has_value_m = has_value ot, value_m = value_m ot\<rparr> \<and>
           (\<forall>p. p \<noteq> this \<longrightarrow> p \<noteq> other \<longrightarrow> load p s' = load p s) \<and>
           (if has_value ot then
              load other s' = Inr \<lparr>has_value_m = False, value_m = Raw\<rparr> \<and>
              ctor_calls s' = ctor_calls s + 1 \<and> dtor_calls s' = dtor_calls s + 1
            else
              load other s' = Inr ot \<and>
              ctor_calls s' = ctor_calls s \<and> dtor_calls s' = dtor_calls s) \<and>
           (\<exists>ob. load other s' = Inr ob \<and> \<not> has_value ob \<and> \<not> holds_live (value_m ob))"
  using assms load_bound[OF assms(1)] load_nth[OF assms(1)]
  by (cases ot; cases "value_m ot")
     (auto simp: optional_move_effect[OF assms] load_def ok_defs nth_append nth_list_update)

theorem move_construction_witness:
  "load 0 \<lparr>objects = [Some \<lparr>has_value_m = True, value_m = Live (42 :: int)\<rparr>,
                 Some \<lparr>has_value_m = True, value_m = Live 55\<rparr>,
                 Some \<lparr>has_value_m = False, value_m = Raw\<rparr>],
      ctor_calls = 2, dtor_calls = 0\<rparr> = Inr \<lparr>has_value_m = True, value_m = Live (42 :: int)\<rparr> \<and> optional_ok \<lparr>has_value_m = True, value_m = Live (42 :: int)\<rparr> \<and>
   optional_move 0 \<lparr>objects = [Some \<lparr>has_value_m = True, value_m = Live (42 :: int)\<rparr>,
                 Some \<lparr>has_value_m = True, value_m = Live 55\<rparr>,
                 Some \<lparr>has_value_m = False, value_m = Raw\<rparr>],
      ctor_calls = 2, dtor_calls = 0\<rparr> =
     Inr (3, \<lparr>objects = [Some \<lparr>has_value_m = False, value_m = Raw\<rparr>,
                          Some \<lparr>has_value_m = True, value_m = Live 55\<rparr>,
                          Some \<lparr>has_value_m = False, value_m = Raw\<rparr>,
                          Some \<lparr>has_value_m = True, value_m = Live 42\<rparr>],
             ctor_calls = 3, dtor_calls = 1\<rparr>)"
  using move_construction[of 0 "\<lparr>objects = [Some \<lparr>has_value_m = True, value_m = Live (42 :: int)\<rparr>,
                 Some \<lparr>has_value_m = True, value_m = Live 55\<rparr>,
                 Some \<lparr>has_value_m = False, value_m = Raw\<rparr>],
      ctor_calls = 2, dtor_calls = 0\<rparr>" "\<lparr>has_value_m = True, value_m = Live (42 :: int)\<rparr>"]
  by (simp add: member_defs store_defs prim_defs optional_ok_def)

text \<open>
  C4. Move assignment between two distinct valid optionals, by the four cases of
  presence: both present, the target's \<open>T\<close> is assigned the source's value (nothing
  is constructed); target present and source empty, the target's value is destroyed
  and the target becomes empty; target empty and source present, a \<open>T\<close> is
  constructed in the target from the source's value; both empty, the store is
  unchanged. Whenever the source was present its value is destroyed and it is marked
  empty. Move-assigning an optional to itself returns the store as it was, for every
  address and every store, with no condition on what the optional holds.
\<close>

theorem move_assignment:
  "(load this s = Inr t \<and> load other s = Inr ot \<and>
    optional_ok t \<and> optional_ok ot \<and> other \<noteq> this \<longrightarrow>
   (\<exists>s'. assign_move this other s = Inr s' \<and>
            (\<forall>p. p \<noteq> this \<longrightarrow> p \<noteq> other \<longrightarrow> load p s' = load p s) \<and>
            (if has_value t then
               if has_value ot then
                 load this s' = Inr \<lparr>has_value_m = True, value_m = value_m ot\<rparr> \<and>
                 load other s' = Inr \<lparr>has_value_m = False, value_m = Raw\<rparr> \<and>
                 ctor_calls s' = ctor_calls s \<and> dtor_calls s' = dtor_calls s + 1
               else
                 load this s' = Inr \<lparr>has_value_m = False, value_m = Raw\<rparr> \<and>
                 load other s' = Inr ot \<and>
                 ctor_calls s' = ctor_calls s \<and> dtor_calls s' = dtor_calls s + 1
             else
               if has_value ot then
                 load this s' = Inr \<lparr>has_value_m = True, value_m = value_m ot\<rparr> \<and>
                 load other s' = Inr \<lparr>has_value_m = False, value_m = Raw\<rparr> \<and>
                 ctor_calls s' = ctor_calls s + 1 \<and> dtor_calls s' = dtor_calls s + 1
               else s' = s))) \<and>
   (\<forall>a s0. assign_move a a s0 = Inr s0)"
proof (intro conjI impI allI)
  assume h: "load this s = Inr t \<and> load other s = Inr ot \<and>
    optional_ok t \<and> optional_ok ot \<and> other \<noteq> this"
  then have l: "load this s = Inr t" "load other s = Inr ot"
    and ok: "optional_ok t" "optional_ok ot" and ne: "other \<noteq> this"
    by simp_all
  show "(\<exists>s'. assign_move this other s = Inr s' \<and>
            (\<forall>p. p \<noteq> this \<longrightarrow> p \<noteq> other \<longrightarrow> load p s' = load p s) \<and>
            (if has_value t then
               if has_value ot then
                 load this s' = Inr \<lparr>has_value_m = True, value_m = value_m ot\<rparr> \<and>
                 load other s' = Inr \<lparr>has_value_m = False, value_m = Raw\<rparr> \<and>
                 ctor_calls s' = ctor_calls s \<and> dtor_calls s' = dtor_calls s + 1
               else
                 load this s' = Inr \<lparr>has_value_m = False, value_m = Raw\<rparr> \<and>
                 load other s' = Inr ot \<and>
                 ctor_calls s' = ctor_calls s \<and> dtor_calls s' = dtor_calls s + 1
             else
               if has_value ot then
                 load this s' = Inr \<lparr>has_value_m = True, value_m = value_m ot\<rparr> \<and>
                 load other s' = Inr \<lparr>has_value_m = False, value_m = Raw\<rparr> \<and>
                 ctor_calls s' = ctor_calls s + 1 \<and> dtor_calls s' = dtor_calls s + 1
               else s' = s))"
    using l ok ne load_bound[OF l(1)] load_bound[OF l(2)]
    by (cases t; cases ot)
       (auto simp: assign_move_effect[OF l ok ne] load_put ok_defs)
qed (simp_all add: assign_move_def)

theorem move_assignment_witness:
  "load 0 \<lparr>objects = [Some \<lparr>has_value_m = True, value_m = Live (42 :: int)\<rparr>,
                 Some \<lparr>has_value_m = True, value_m = Live 55\<rparr>,
                 Some \<lparr>has_value_m = False, value_m = Raw\<rparr>],
      ctor_calls = 2, dtor_calls = 0\<rparr> = Inr \<lparr>has_value_m = True, value_m = Live (42 :: int)\<rparr> \<and> load 1 \<lparr>objects = [Some \<lparr>has_value_m = True, value_m = Live (42 :: int)\<rparr>,
                 Some \<lparr>has_value_m = True, value_m = Live 55\<rparr>,
                 Some \<lparr>has_value_m = False, value_m = Raw\<rparr>],
      ctor_calls = 2, dtor_calls = 0\<rparr> = Inr \<lparr>has_value_m = True, value_m = Live (55 :: int)\<rparr> \<and> optional_ok \<lparr>has_value_m = True, value_m = Live (42 :: int)\<rparr> \<and> optional_ok \<lparr>has_value_m = True, value_m = Live (55 :: int)\<rparr> \<and> (1 :: nat) \<noteq> 0 \<and>
   assign_move 0 1 \<lparr>objects = [Some \<lparr>has_value_m = True, value_m = Live (42 :: int)\<rparr>,
                 Some \<lparr>has_value_m = True, value_m = Live 55\<rparr>,
                 Some \<lparr>has_value_m = False, value_m = Raw\<rparr>],
      ctor_calls = 2, dtor_calls = 0\<rparr> =
     Inr \<lparr>objects = [Some \<lparr>has_value_m = True, value_m = Live 55\<rparr>,
                      Some \<lparr>has_value_m = False, value_m = Raw\<rparr>,
                      Some \<lparr>has_value_m = False, value_m = Raw\<rparr>],
          ctor_calls = 2, dtor_calls = 1\<rparr> \<and>
   assign_move 1 1 \<lparr>objects = [Some \<lparr>has_value_m = True, value_m = Live (42 :: int)\<rparr>,
                 Some \<lparr>has_value_m = True, value_m = Live 55\<rparr>,
                 Some \<lparr>has_value_m = False, value_m = Raw\<rparr>],
      ctor_calls = 2, dtor_calls = 0\<rparr> = Inr \<lparr>objects = [Some \<lparr>has_value_m = True, value_m = Live (42 :: int)\<rparr>,
                 Some \<lparr>has_value_m = True, value_m = Live 55\<rparr>,
                 Some \<lparr>has_value_m = False, value_m = Raw\<rparr>],
      ctor_calls = 2, dtor_calls = 0\<rparr> \<and>
   assign_move 0 0 \<lparr>objects = [Some \<lparr>has_value_m = True, value_m = Live (42 :: int)\<rparr>],
      ctor_calls = 1, dtor_calls = 0\<rparr> = Inr \<lparr>objects = [Some \<lparr>has_value_m = True, value_m = Live (42 :: int)\<rparr>],
      ctor_calls = 1, dtor_calls = 0\<rparr>"
  using move_assignment[where this = 0 and s = "\<lparr>objects = [Some \<lparr>has_value_m = True, value_m = Live (42 :: int)\<rparr>,
                 Some \<lparr>has_value_m = True, value_m = Live 55\<rparr>,
                 Some \<lparr>has_value_m = False, value_m = Raw\<rparr>],
      ctor_calls = 2, dtor_calls = 0\<rparr>" and t = "\<lparr>has_value_m = True, value_m = Live (42 :: int)\<rparr>" and other = 1 and ot = "\<lparr>has_value_m = True, value_m = Live (55 :: int)\<rparr>"]
  by (simp add: member_defs store_defs prim_defs optional_ok_def)

text \<open>
  C5. Copy assignment between two distinct valid optionals, by the four cases of
  presence: both present, the target's \<open>T\<close> is assigned the source's value and
  nothing is constructed or destroyed; target present and source empty, the target's
  value is destroyed and the target becomes empty; target empty and source present,
  a copy of the source's value is constructed in the target, which becomes present;
  both empty, the store is unchanged. Only the target changes. Assigning an optional
  to itself, found by comparing addresses, returns the store as it was, for every
  address and every store.
\<close>

theorem copy_assignment:
  "(load this s = Inr t \<and> load other s = Inr ot \<and>
    optional_ok t \<and> optional_ok ot \<and> other \<noteq> this \<longrightarrow>
   (\<exists>s'. assign_copy this other s = Inr s' \<and>
            (\<forall>p. p \<noteq> this \<longrightarrow> load p s' = load p s) \<and>
            (if has_value t then
               if has_value ot then
                 load this s' = Inr \<lparr>has_value_m = True, value_m = value_m ot\<rparr> \<and>
                 ctor_calls s' = ctor_calls s \<and> dtor_calls s' = dtor_calls s
               else
                 load this s' = Inr \<lparr>has_value_m = False, value_m = Raw\<rparr> \<and>
                 ctor_calls s' = ctor_calls s \<and> dtor_calls s' = dtor_calls s + 1
             else
               if has_value ot then
                 load this s' = Inr \<lparr>has_value_m = True, value_m = value_m ot\<rparr> \<and>
                 ctor_calls s' = ctor_calls s + 1 \<and> dtor_calls s' = dtor_calls s
               else s' = s))) \<and>
   (\<forall>a s0. assign_copy a a s0 = Inr s0)"
proof (intro conjI impI allI)
  assume h: "load this s = Inr t \<and> load other s = Inr ot \<and>
    optional_ok t \<and> optional_ok ot \<and> other \<noteq> this"
  then have l: "load this s = Inr t" "load other s = Inr ot"
    and ok: "optional_ok t" "optional_ok ot" and ne: "other \<noteq> this"
    by simp_all
  show "(\<exists>s'. assign_copy this other s = Inr s' \<and>
            (\<forall>p. p \<noteq> this \<longrightarrow> load p s' = load p s) \<and>
            (if has_value t then
               if has_value ot then
                 load this s' = Inr \<lparr>has_value_m = True, value_m = value_m ot\<rparr> \<and>
                 ctor_calls s' = ctor_calls s \<and> dtor_calls s' = dtor_calls s
               else
                 load this s' = Inr \<lparr>has_value_m = False, value_m = Raw\<rparr> \<and>
                 ctor_calls s' = ctor_calls s \<and> dtor_calls s' = dtor_calls s + 1
             else
               if has_value ot then
                 load this s' = Inr \<lparr>has_value_m = True, value_m = value_m ot\<rparr> \<and>
                 ctor_calls s' = ctor_calls s + 1 \<and> dtor_calls s' = dtor_calls s
               else s' = s))"
    using l ok ne load_bound[OF l(1)] load_bound[OF l(2)]
    by (cases t; cases ot)
       (auto simp: assign_copy_effect[OF l ok ne] load_put ok_defs)
qed (simp_all add: assign_copy_def)

theorem copy_assignment_witness:
  "load 2 \<lparr>objects = [Some \<lparr>has_value_m = True, value_m = Live (42 :: int)\<rparr>,
                 Some \<lparr>has_value_m = True, value_m = Live 55\<rparr>,
                 Some \<lparr>has_value_m = False, value_m = Raw\<rparr>],
      ctor_calls = 2, dtor_calls = 0\<rparr> = Inr \<lparr>has_value_m = False, value_m = (Raw :: int storage)\<rparr> \<and> load 1 \<lparr>objects = [Some \<lparr>has_value_m = True, value_m = Live (42 :: int)\<rparr>,
                 Some \<lparr>has_value_m = True, value_m = Live 55\<rparr>,
                 Some \<lparr>has_value_m = False, value_m = Raw\<rparr>],
      ctor_calls = 2, dtor_calls = 0\<rparr> = Inr \<lparr>has_value_m = True, value_m = Live (55 :: int)\<rparr> \<and> optional_ok \<lparr>has_value_m = False, value_m = (Raw :: int storage)\<rparr> \<and> optional_ok \<lparr>has_value_m = True, value_m = Live (55 :: int)\<rparr> \<and> (1 :: nat) \<noteq> 2 \<and>
   assign_copy 2 1 \<lparr>objects = [Some \<lparr>has_value_m = True, value_m = Live (42 :: int)\<rparr>,
                 Some \<lparr>has_value_m = True, value_m = Live 55\<rparr>,
                 Some \<lparr>has_value_m = False, value_m = Raw\<rparr>],
      ctor_calls = 2, dtor_calls = 0\<rparr> =
     Inr \<lparr>objects = [Some \<lparr>has_value_m = True, value_m = Live 42\<rparr>,
                      Some \<lparr>has_value_m = True, value_m = Live 55\<rparr>,
                      Some \<lparr>has_value_m = True, value_m = Live 55\<rparr>],
          ctor_calls = 3, dtor_calls = 0\<rparr> \<and>
   assign_copy 1 1 \<lparr>objects = [Some \<lparr>has_value_m = True, value_m = Live (42 :: int)\<rparr>,
                 Some \<lparr>has_value_m = True, value_m = Live 55\<rparr>,
                 Some \<lparr>has_value_m = False, value_m = Raw\<rparr>],
      ctor_calls = 2, dtor_calls = 0\<rparr> = Inr \<lparr>objects = [Some \<lparr>has_value_m = True, value_m = Live (42 :: int)\<rparr>,
                 Some \<lparr>has_value_m = True, value_m = Live 55\<rparr>,
                 Some \<lparr>has_value_m = False, value_m = Raw\<rparr>],
      ctor_calls = 2, dtor_calls = 0\<rparr> \<and>
   assign_copy 0 0 \<lparr>objects = [Some \<lparr>has_value_m = True, value_m = Live (42 :: int)\<rparr>],
      ctor_calls = 1, dtor_calls = 0\<rparr> = Inr \<lparr>objects = [Some \<lparr>has_value_m = True, value_m = Live (42 :: int)\<rparr>],
      ctor_calls = 1, dtor_calls = 0\<rparr>"
  using copy_assignment[where this = 2 and s = "\<lparr>objects = [Some \<lparr>has_value_m = True, value_m = Live (42 :: int)\<rparr>,
                 Some \<lparr>has_value_m = True, value_m = Live 55\<rparr>,
                 Some \<lparr>has_value_m = False, value_m = Raw\<rparr>],
      ctor_calls = 2, dtor_calls = 0\<rparr>" and t = "\<lparr>has_value_m = False, value_m = (Raw :: int storage)\<rparr>" and other = 1 and ot = "\<lparr>has_value_m = True, value_m = Live (55 :: int)\<rparr>"]
  by (simp add: member_defs store_defs prim_defs optional_ok_def)

text \<open>
  C6. Swap of two distinct valid optionals, by the four cases of presence: both
  present, the two values are exchanged and nothing is constructed or destroyed;
  exactly one present, its value is constructed in the empty side, which becomes
  present, and the side it came from has its value destroyed and becomes empty; both
  empty, the store is unchanged. No other optional changes. Swapping an optional with
  itself returns the store as it was, for every address and every store, and the
  free function \<^verbatim>\<open>swap(a, b)\<close> is the member \<^verbatim>\<open>a.swap(b)\<close> on all arguments.
\<close>

theorem swap_cases:
  "(load this s = Inr t \<and> load other s = Inr ot \<and>
    optional_ok t \<and> optional_ok ot \<and> other \<noteq> this \<longrightarrow>
   (\<exists>s'. swap this other s = Inr s' \<and>
            (\<forall>p. p \<noteq> this \<longrightarrow> p \<noteq> other \<longrightarrow> load p s' = load p s) \<and>
            (if has_value t then
               if has_value ot then
                 load this s' = Inr \<lparr>has_value_m = True, value_m = value_m ot\<rparr> \<and>
                 load other s' = Inr \<lparr>has_value_m = True, value_m = value_m t\<rparr> \<and>
                 ctor_calls s' = ctor_calls s \<and> dtor_calls s' = dtor_calls s
               else
                 load this s' = Inr \<lparr>has_value_m = False, value_m = Raw\<rparr> \<and>
                 load other s' = Inr \<lparr>has_value_m = True, value_m = value_m t\<rparr> \<and>
                 ctor_calls s' = ctor_calls s + 1 \<and> dtor_calls s' = dtor_calls s + 1
             else
               if has_value ot then
                 load this s' = Inr \<lparr>has_value_m = True, value_m = value_m ot\<rparr> \<and>
                 load other s' = Inr \<lparr>has_value_m = False, value_m = Raw\<rparr> \<and>
                 ctor_calls s' = ctor_calls s + 1 \<and> dtor_calls s' = dtor_calls s + 1
               else s' = s))) \<and>
   (\<forall>a s0. swap a a s0 = Inr s0) \<and>
   (\<forall>a b s0. free_swap a b s0 = swap a b s0)"
proof (intro conjI impI allI)
  assume h: "load this s = Inr t \<and> load other s = Inr ot \<and>
    optional_ok t \<and> optional_ok ot \<and> other \<noteq> this"
  then have l: "load this s = Inr t" "load other s = Inr ot"
    and ok: "optional_ok t" "optional_ok ot" and ne: "other \<noteq> this"
    by simp_all
  show "(\<exists>s'. swap this other s = Inr s' \<and>
            (\<forall>p. p \<noteq> this \<longrightarrow> p \<noteq> other \<longrightarrow> load p s' = load p s) \<and>
            (if has_value t then
               if has_value ot then
                 load this s' = Inr \<lparr>has_value_m = True, value_m = value_m ot\<rparr> \<and>
                 load other s' = Inr \<lparr>has_value_m = True, value_m = value_m t\<rparr> \<and>
                 ctor_calls s' = ctor_calls s \<and> dtor_calls s' = dtor_calls s
               else
                 load this s' = Inr \<lparr>has_value_m = False, value_m = Raw\<rparr> \<and>
                 load other s' = Inr \<lparr>has_value_m = True, value_m = value_m t\<rparr> \<and>
                 ctor_calls s' = ctor_calls s + 1 \<and> dtor_calls s' = dtor_calls s + 1
             else
               if has_value ot then
                 load this s' = Inr \<lparr>has_value_m = True, value_m = value_m ot\<rparr> \<and>
                 load other s' = Inr \<lparr>has_value_m = False, value_m = Raw\<rparr> \<and>
                 ctor_calls s' = ctor_calls s + 1 \<and> dtor_calls s' = dtor_calls s + 1
               else s' = s))"
    using l ok ne load_bound[OF l(1)] load_bound[OF l(2)]
    by (cases t; cases ot)
       (auto simp: swap_effect[OF l ok ne] load_put ok_defs)
qed (simp_all add: swap_def free_swap_def)

theorem swap_cases_witness:
  "load 0 \<lparr>objects = [Some \<lparr>has_value_m = True, value_m = Live (42 :: int)\<rparr>,
                 Some \<lparr>has_value_m = True, value_m = Live 55\<rparr>,
                 Some \<lparr>has_value_m = False, value_m = Raw\<rparr>],
      ctor_calls = 2, dtor_calls = 0\<rparr> = Inr \<lparr>has_value_m = True, value_m = Live (42 :: int)\<rparr> \<and> load 2 \<lparr>objects = [Some \<lparr>has_value_m = True, value_m = Live (42 :: int)\<rparr>,
                 Some \<lparr>has_value_m = True, value_m = Live 55\<rparr>,
                 Some \<lparr>has_value_m = False, value_m = Raw\<rparr>],
      ctor_calls = 2, dtor_calls = 0\<rparr> = Inr \<lparr>has_value_m = False, value_m = (Raw :: int storage)\<rparr> \<and> optional_ok \<lparr>has_value_m = True, value_m = Live (42 :: int)\<rparr> \<and> optional_ok \<lparr>has_value_m = False, value_m = (Raw :: int storage)\<rparr> \<and> (2 :: nat) \<noteq> 0 \<and>
   swap 0 2 \<lparr>objects = [Some \<lparr>has_value_m = True, value_m = Live (42 :: int)\<rparr>,
                 Some \<lparr>has_value_m = True, value_m = Live 55\<rparr>,
                 Some \<lparr>has_value_m = False, value_m = Raw\<rparr>],
      ctor_calls = 2, dtor_calls = 0\<rparr> =
     Inr \<lparr>objects = [Some \<lparr>has_value_m = False, value_m = Raw\<rparr>,
                      Some \<lparr>has_value_m = True, value_m = Live 55\<rparr>,
                      Some \<lparr>has_value_m = True, value_m = Live 42\<rparr>],
          ctor_calls = 3, dtor_calls = 1\<rparr> \<and>
   free_swap 0 1 \<lparr>objects = [Some \<lparr>has_value_m = True, value_m = Live (42 :: int)\<rparr>,
                 Some \<lparr>has_value_m = True, value_m = Live 55\<rparr>,
                 Some \<lparr>has_value_m = False, value_m = Raw\<rparr>],
      ctor_calls = 2, dtor_calls = 0\<rparr> =
     Inr \<lparr>objects = [Some \<lparr>has_value_m = True, value_m = Live 55\<rparr>,
                      Some \<lparr>has_value_m = True, value_m = Live 42\<rparr>,
                      Some \<lparr>has_value_m = False, value_m = Raw\<rparr>],
          ctor_calls = 2, dtor_calls = 0\<rparr> \<and>
   swap 0 0 \<lparr>objects = [Some \<lparr>has_value_m = True, value_m = Live (42 :: int)\<rparr>],
      ctor_calls = 1, dtor_calls = 0\<rparr> = Inr \<lparr>objects = [Some \<lparr>has_value_m = True, value_m = Live (42 :: int)\<rparr>],
      ctor_calls = 1, dtor_calls = 0\<rparr> \<and>
   free_swap 0 0 \<lparr>objects = [Some \<lparr>has_value_m = True, value_m = Live (42 :: int)\<rparr>],
      ctor_calls = 1, dtor_calls = 0\<rparr> = Inr \<lparr>objects = [Some \<lparr>has_value_m = True, value_m = Live (42 :: int)\<rparr>],
      ctor_calls = 1, dtor_calls = 0\<rparr>"
  using swap_cases[where this = 0 and s = "\<lparr>objects = [Some \<lparr>has_value_m = True, value_m = Live (42 :: int)\<rparr>,
                 Some \<lparr>has_value_m = True, value_m = Live 55\<rparr>,
                 Some \<lparr>has_value_m = False, value_m = Raw\<rparr>],
      ctor_calls = 2, dtor_calls = 0\<rparr>" and t = "\<lparr>has_value_m = True, value_m = Live (42 :: int)\<rparr>" and other = 2 and ot = "\<lparr>has_value_m = False, value_m = (Raw :: int storage)\<rparr>"]
  by (simp add: member_defs store_defs prim_defs optional_ok_def)




text \<open>
  C8. On a valid optional \<^verbatim>\<open>value_or(d)\<close> returns the contained value when there is
  one and the conversion of \<open>d\<close> to \<open>T\<close> when the optional is empty, and the store
  after the call is the store before it.
\<close>

theorem value_or_result:
  assumes "load this s = Inr ob" and "optional_ok ob"
  shows "\<exists>r. call_const (\<lambda>ob. value_or conv ob d) this s = Inr (r, s) \<and>
             value_or conv ob d = Inr r \<and>
             (has_value ob \<longrightarrow> value_m ob = Live r) \<and>
             (\<not> has_value ob \<longrightarrow> r = conv d)"
  using assms
  by (cases "value_m ob") (simp_all add: observer_defs T_get_def optional_ok_def)

theorem value_or_result_witness:
  "load 0 \<lparr>objects = [Some \<lparr>has_value_m = True, value_m = Live (42 :: int)\<rparr>,
                 Some \<lparr>has_value_m = True, value_m = Live 55\<rparr>,
                 Some \<lparr>has_value_m = False, value_m = Raw\<rparr>],
      ctor_calls = 2, dtor_calls = 0\<rparr> = Inr \<lparr>has_value_m = True, value_m = Live (42 :: int)\<rparr> \<and> optional_ok \<lparr>has_value_m = True, value_m = Live (42 :: int)\<rparr> \<and> load 2 \<lparr>objects = [Some \<lparr>has_value_m = True, value_m = Live (42 :: int)\<rparr>,
                 Some \<lparr>has_value_m = True, value_m = Live 55\<rparr>,
                 Some \<lparr>has_value_m = False, value_m = Raw\<rparr>],
      ctor_calls = 2, dtor_calls = 0\<rparr> = Inr \<lparr>has_value_m = False, value_m = (Raw :: int storage)\<rparr> \<and> optional_ok \<lparr>has_value_m = False, value_m = (Raw :: int storage)\<rparr> \<and>
   call_const (\<lambda>ob. value_or (\<lambda>x. x) ob 55) 0 \<lparr>objects = [Some \<lparr>has_value_m = True, value_m = Live (42 :: int)\<rparr>,
                 Some \<lparr>has_value_m = True, value_m = Live 55\<rparr>,
                 Some \<lparr>has_value_m = False, value_m = Raw\<rparr>],
      ctor_calls = 2, dtor_calls = 0\<rparr> = Inr (42, \<lparr>objects = [Some \<lparr>has_value_m = True, value_m = Live (42 :: int)\<rparr>,
                 Some \<lparr>has_value_m = True, value_m = Live 55\<rparr>,
                 Some \<lparr>has_value_m = False, value_m = Raw\<rparr>],
      ctor_calls = 2, dtor_calls = 0\<rparr>) \<and>
   call_const (\<lambda>ob. value_or (\<lambda>x. x) ob 55) 2 \<lparr>objects = [Some \<lparr>has_value_m = True, value_m = Live (42 :: int)\<rparr>,
                 Some \<lparr>has_value_m = True, value_m = Live 55\<rparr>,
                 Some \<lparr>has_value_m = False, value_m = Raw\<rparr>],
      ctor_calls = 2, dtor_calls = 0\<rparr> = Inr (55, \<lparr>objects = [Some \<lparr>has_value_m = True, value_m = Live (42 :: int)\<rparr>,
                 Some \<lparr>has_value_m = True, value_m = Live 55\<rparr>,
                 Some \<lparr>has_value_m = False, value_m = Raw\<rparr>],
      ctor_calls = 2, dtor_calls = 0\<rparr>)"
  using value_or_result[of 0 "\<lparr>objects = [Some \<lparr>has_value_m = True, value_m = Live (42 :: int)\<rparr>,
                 Some \<lparr>has_value_m = True, value_m = Live 55\<rparr>,
                 Some \<lparr>has_value_m = False, value_m = Raw\<rparr>],
      ctor_calls = 2, dtor_calls = 0\<rparr>" "\<lparr>has_value_m = True, value_m = Live (42 :: int)\<rparr>" "\<lambda>x. x" 55] value_or_result[of 2 "\<lparr>objects = [Some \<lparr>has_value_m = True, value_m = Live (42 :: int)\<rparr>,
                 Some \<lparr>has_value_m = True, value_m = Live 55\<rparr>,
                 Some \<lparr>has_value_m = False, value_m = Raw\<rparr>],
      ctor_calls = 2, dtor_calls = 0\<rparr>" "\<lparr>has_value_m = False, value_m = (Raw :: int storage)\<rparr>" "\<lambda>x. x" 55]
  by (simp add: observer_defs T_get_def optional_ok_def load_def)

text \<open>
  C9. Construction from \<^verbatim>\<open>nullopt\<close> is default construction: the new optional is
  empty and no \<open>T\<close> is constructed or destroyed. Assignment of \<^verbatim>\<open>nullopt\<close> is
  \<^verbatim>\<open>reset()\<close>: on a valid optional with a value, the value is destroyed and the
  optional becomes empty; on an empty one the store is unchanged.
\<close>

theorem nullopt_is_default_and_reset:
  "optional_nullopt s = optional_default s \<and>
   load (fst (optional_nullopt s)) (snd (optional_nullopt s)) =
     Inr \<lparr>has_value_m = False, value_m = Raw\<rparr> \<and>
   ctor_calls (snd (optional_nullopt s)) = ctor_calls s \<and>
   dtor_calls (snd (optional_nullopt s)) = dtor_calls s \<and>
   assign_nullopt this s = reset this s \<and>
   (\<forall>t. load this s = Inr t \<and> optional_ok t \<longrightarrow>
      assign_nullopt this s =
        Inr (if has_value t
             then put this \<lparr>has_value_m = False, value_m = Raw\<rparr> (s\<lparr>dtor_calls := dtor_calls s + 1\<rparr>)
             else s))"
  by (auto simp: optional_nullopt_effect optional_default_effect load_append assign_nullopt_def
      reset_effect)

theorem nullopt_is_default_and_reset_witness:
  "load 0 \<lparr>objects = [Some \<lparr>has_value_m = True, value_m = Live (42 :: int)\<rparr>,
                 Some \<lparr>has_value_m = True, value_m = Live 55\<rparr>,
                 Some \<lparr>has_value_m = False, value_m = Raw\<rparr>],
      ctor_calls = 2, dtor_calls = 0\<rparr> = Inr \<lparr>has_value_m = True, value_m = Live (42 :: int)\<rparr> \<and> optional_ok \<lparr>has_value_m = True, value_m = Live (42 :: int)\<rparr> \<and>
   assign_nullopt 0 \<lparr>objects = [Some \<lparr>has_value_m = True, value_m = Live (42 :: int)\<rparr>,
                 Some \<lparr>has_value_m = True, value_m = Live 55\<rparr>,
                 Some \<lparr>has_value_m = False, value_m = Raw\<rparr>],
      ctor_calls = 2, dtor_calls = 0\<rparr> =
     Inr \<lparr>objects = [Some \<lparr>has_value_m = False, value_m = Raw\<rparr>,
                      Some \<lparr>has_value_m = True, value_m = Live 55\<rparr>,
                      Some \<lparr>has_value_m = False, value_m = Raw\<rparr>],
          ctor_calls = 2, dtor_calls = 1\<rparr> \<and>
   assign_nullopt 2 \<lparr>objects = [Some \<lparr>has_value_m = True, value_m = Live (42 :: int)\<rparr>,
                 Some \<lparr>has_value_m = True, value_m = Live 55\<rparr>,
                 Some \<lparr>has_value_m = False, value_m = Raw\<rparr>],
      ctor_calls = 2, dtor_calls = 0\<rparr> = Inr \<lparr>objects = [Some \<lparr>has_value_m = True, value_m = Live (42 :: int)\<rparr>,
                 Some \<lparr>has_value_m = True, value_m = Live 55\<rparr>,
                 Some \<lparr>has_value_m = False, value_m = Raw\<rparr>],
      ctor_calls = 2, dtor_calls = 0\<rparr>"
  using nullopt_is_default_and_reset[of "\<lparr>objects = [Some \<lparr>has_value_m = True, value_m = Live (42 :: int)\<rparr>,
                 Some \<lparr>has_value_m = True, value_m = Live 55\<rparr>,
                 Some \<lparr>has_value_m = False, value_m = Raw\<rparr>],
      ctor_calls = 2, dtor_calls = 0\<rparr>" 0] nullopt_is_default_and_reset[of "\<lparr>objects = [Some \<lparr>has_value_m = True, value_m = Live (42 :: int)\<rparr>,
                 Some \<lparr>has_value_m = True, value_m = Live 55\<rparr>,
                 Some \<lparr>has_value_m = False, value_m = Raw\<rparr>],
      ctor_calls = 2, dtor_calls = 0\<rparr>" 2]
  by (simp add: member_defs store_defs prim_defs optional_ok_def)

text \<open>
  C10. No comparison operator reads the storage of an optional whose \<open>has_value\<close> is
  false: provided only that the operands that do have a value hold a live \<open>T\<close>
  (nothing is asked of the storage of an empty operand), every comparison operator
  returns a result and never the error of an access outside a lifetime.
\<close>

theorem comparisons_read_no_empty_optional:
  assumes "has_value a \<longrightarrow> holds_live (value_m a)"
    and "has_value b \<longrightarrow> holds_live (value_m b)"
  shows "(\<exists>r. operator_eq_opt_nullopt a = Inr r) \<and>
         (\<exists>r. operator_ne_opt_nullopt a = Inr r) \<and>
         (\<exists>r. operator_eq_nullopt_opt a = Inr r) \<and>
         (\<exists>r. operator_ne_nullopt_opt a = Inr r) \<and>
         (\<exists>r. operator_eq_opt_opt eq a b = Inr r) \<and>
         (\<exists>r. operator_ne_opt_opt ne a b = Inr r) \<and>
         (\<exists>r. operator_eq_opt_val eq a v = Inr r) \<and>
         (\<exists>r. operator_ne_opt_val ne a v = Inr r) \<and>
         (\<exists>r. operator_eq_val_opt eq w b = Inr r) \<and>
         (\<exists>r. operator_ne_val_opt ne w b = Inr r)"
  using assms
  by (cases "value_m a"; cases "value_m b")
     (auto simp: comparison_defs observer_defs T_get_def)

theorem comparisons_read_no_empty_optional_witness:
  "\<not> has_value \<lparr>has_value_m = False, value_m = (Raw :: int storage)\<rparr> \<and>
   holds_live (value_m \<lparr>has_value_m = True, value_m = Live (42 :: int)\<rparr>) \<and>
   operator_eq_opt_opt (=) \<lparr>has_value_m = False, value_m = (Raw :: int storage)\<rparr> \<lparr>has_value_m = True, value_m = Live (42 :: int)\<rparr> = Inr False \<and>
   operator_ne_opt_opt (\<noteq>) \<lparr>has_value_m = False, value_m = (Raw :: int storage)\<rparr> \<lparr>has_value_m = True, value_m = Live (42 :: int)\<rparr> = Inr True \<and>
   operator_eq_opt_val (=) \<lparr>has_value_m = False, value_m = (Raw :: int storage)\<rparr> (42 :: int) = Inr False \<and>
   operator_ne_val_opt (\<noteq>) (42 :: int) \<lparr>has_value_m = False, value_m = (Raw :: int storage)\<rparr> = Inr True"
  using comparisons_read_no_empty_optional[of "\<lparr>has_value_m = False, value_m = (Raw :: int storage)\<rparr>" "\<lparr>has_value_m = True, value_m = Live (42 :: int)\<rparr>" "(=)" "(\<noteq>)" 42 42]
  by (simp add: comparison_defs observer_defs T_get_def)

end
